theory Spec2Isabelle
  imports Complex_Main "HOL-Library.AList"
begin

chapter \<open>The program\<close>

section \<open>Python values\<close>

text \<open>
  The ways a function of \<^verbatim>\<open>aci_proactive_audit.py\<close> ends without a result:
  \<^verbatim>\<open>exit(1)\<close> after a logged message, or a Python exception nothing catches.
\<close>

datatype py_error = Exit nat | KeyError | AttributeError | TypeError | ValueError | IndexError

text \<open>
  A \<^verbatim>\<open>dict\<close> is an association list in insertion order whose keys are distinct;
  \<^verbatim>\<open>d[k] = v\<close> is \<^const>\<open>AList.update\<close> (an existing key keeps its place, a new
  key goes last), \<^verbatim>\<open>k in d\<close> is membership in \<open>keys d\<close>, \<^verbatim>\<open>d[k]\<close> is
  \<^const>\<open>map_of\<close>.
\<close>

type_synonym ('k, 'v) dict = "('k \<times> 'v) list"

definition keys :: "('k, 'v) dict \<Rightarrow> 'k list" where
  "keys d = map fst d"

text \<open>\<^verbatim>\<open>d.update(other)\<close>: every item of \<open>other\<close> is assigned into \<open>d\<close>, in order.\<close>

definition dict_update :: "('k, 'v) dict \<Rightarrow> ('k, 'v) dict \<Rightarrow> ('k, 'v) dict" where
  "dict_update d other = foldl (\<lambda>acc (k, v). AList.update k v acc) d other"

text \<open>A key of a dictionary: absent, present with \<^verbatim>\<open>None\<close>, or present with a value.\<close>

datatype 'a field = Absent | PyNone | Val 'a

section \<open>Remote assurance client: job monitor (variant ndi)\<close>

text \<open>
  \<^verbatim>\<open>nae_session.nae_monitor_analysis\<close>, branch \<^verbatim>\<open>self.version == "ndi"\<close>.
  Every pass of the \<^verbatim>\<open>while True\<close> loop requests the job listing once; the listings the
  service answers with are the input of the model, one per poll, in order. The loop
  leaves by \<^verbatim>\<open>break\<close> (the method returns \<^verbatim>\<open>True\<close>), by \<^verbatim>\<open>exit(1)\<close>, or not
  at all: when the listings given are used up and the loop would poll again the model
  answers \<open>Polling\<close>.
\<close>

record job_entry =
  jobId :: string
  operSt :: string

datatype monitor_outcome = Returned bool | Exited | Polling

definition max_retry_count :: nat where
  "max_retry_count = 6"

text \<open>
  The \<^verbatim>\<open>for entry in result["entries"]\<close> scan: \<open>None\<close> is \<^verbatim>\<open>found = False\<close>,
  \<open>Some s\<close> is \<^verbatim>\<open>found = True\<close> with \<^verbatim>\<open>status = s\<close> (the last matching entry wins).
\<close>

definition scan_entries :: "string \<Rightarrow> job_entry list \<Rightarrow> string option" where
  "scan_entries jobname entries =
     foldl (\<lambda>st entry. if jobId entry = jobname then Some (operSt entry) else st) None entries"

text \<open>
  The loop. \<open>retry_count\<close> is the local \<^verbatim>\<open>__retry_count\<close>: the source compares it with
  \<^verbatim>\<open>__max_retry_count\<close> and never assigns it again, so the recursive call passes it on
  unchanged.
\<close>

fun ndi_monitor_loop :: "nat \<Rightarrow> string \<Rightarrow> job_entry list list \<Rightarrow> monitor_outcome" where
  "ndi_monitor_loop retry_count jobname [] = Polling"
| "ndi_monitor_loop retry_count jobname (result # rest) =
     (case scan_entries jobname result of
        None \<Rightarrow>
          (if retry_count < max_retry_count
           then ndi_monitor_loop retry_count jobname rest
           else Exited)
      | Some status \<Rightarrow>
          (if status = ''QUEUED'' then ndi_monitor_loop retry_count jobname rest
           else if status = ''SCHEDULED'' then ndi_monitor_loop retry_count jobname rest
           else if status = ''RUNNING'' then ndi_monitor_loop retry_count jobname rest
           else if status = ''COMPLETE'' then Returned True
           else Exited))"

definition nae_monitor_analysis_ndi :: "string \<Rightarrow> job_entry list list \<Rightarrow> monitor_outcome" where
  "nae_monitor_analysis_ndi jobname results = ndi_monitor_loop 0 jobname results"

section \<open>Schema version adapter: format detection\<close>

definition vetr_2_0_0_keys :: "string list" where
  "vetr_2_0_0_keys =
     [''meta'', ''firmware'', ''admin'', ''fabricStats'', ''eol'', ''epLoopProtection'',
      ''rogueEPControl'', ''ipAging'', ''remoteEPlearning'', ''enforceSubnetCheck'',
      ''portTracking'', ''coopStrict'', ''bfdFabricInt'', ''domainValidation'', ''mcp'',
      ''dom'', ''multipod'', ''isisMetric'', ''tenantStats'', ''bdStats'',
      ''ingressPolicyEnforcement'', ''vzAny'', ''l3outRedundancy'', ''scale'', ''health'',
      ''ssd'']"

definition vetr_2_0_8_keys :: "string list" where
  "vetr_2_0_8_keys =
     [''meta'', ''stats'', ''apic'', ''system'', ''faults'', ''tenant'', ''health'',
      ''fabric'', ''access'', ''admin'', ''apps'', ''scale'', ''eol'']"

text \<open>
  \<^verbatim>\<open>vetr_check_dataformat\<close>: the number of keys chooses the format to test, then every
  key of the input has to be one of that format's keys; the first key that is not
  ends the run with \<^verbatim>\<open>exit(1)\<close>, and so does a key count that is neither 13 nor 26.
\<close>

definition vetr_check_dataformat :: "(string, 'v) dict \<Rightarrow> py_error + string" where
  "vetr_check_dataformat vetr_data =
     (if length (keys vetr_data) = length vetr_2_0_8_keys then
        (if list_all (\<lambda>key. List.member vetr_2_0_8_keys key) (keys vetr_data)
         then Inr ''dataformat_2_0_8'' else Inl (Exit 1))
      else if length (keys vetr_data) = length vetr_2_0_0_keys then
        (if list_all (\<lambda>key. List.member vetr_2_0_0_keys key) (keys vetr_data)
         then Inr ''dataformat_2_0_0'' else Inl (Exit 1))
      else Inl (Exit 1))"

section \<open>Strings\<close>

text \<open>
  A \<^verbatim>\<open>str\<close> is a \<^typ>\<open>string\<close>: the model covers text whose code points are below
  256. \<^verbatim>\<open>s.startswith(p)\<close>, \<^verbatim>\<open>s.split(sep)\<close> for a one-character separator
  (the empty string splits into one empty part) and \<^verbatim>\<open>s.lower()\<close>.
\<close>

definition startswith :: "string \<Rightarrow> string \<Rightarrow> bool" where
  "startswith s p = (take (length p) s = p)"

fun split_sep :: "char \<Rightarrow> string \<Rightarrow> string list" where
  "split_sep sep [] = [[]]"
| "split_sep sep (c # cs) =
     (if c = sep then [] # split_sep sep cs
      else (case split_sep sep cs of
              [] \<Rightarrow> [[c]]
            | w # ws \<Rightarrow> (c # w) # ws))"

definition lower_char :: "char \<Rightarrow> char" where
  "lower_char c =
     (let n = (of_char c :: nat) in
      if (65 \<le> n \<and> n \<le> 90) \<or> (192 \<le> n \<and> n \<le> 222 \<and> n \<noteq> 215)
      then char_of (n + 32) else c)"

definition lower :: "string \<Rightarrow> string" where
  "lower s = map lower_char s"

section \<open>Finding merge\<close>

text \<open>
  A rendered finding, as \<^verbatim>\<open>vetr_render_actions\<close> and \<^verbatim>\<open>nae_render_smart_events\<close>
  build it: the keys \<^verbatim>\<open>content\<close> and \<^verbatim>\<open>metadata\<close>, and the key \<^verbatim>\<open>error\<close> when
  rendering or the extraction of the metadata failed. The metadata is the mapping read from
  the comment block of the template; of its keys the program reads \<^verbatim>\<open>severity\<close> and
  \<^verbatim>\<open>affected_count\<close>.
\<close>

record finding_metadata =
  severity :: "string option"
  affected_count :: "string option"

record finding =
  content :: "string field"
  metadata :: "finding_metadata field"
  error :: "string option"

record summary_row =
  name :: string
  headline :: string
  tool_source :: string
  priority :: string
  affected_count_of :: string

text \<open>
  \<^verbatim>\<open>findings["main_document"]\<close>: the four lists of findings whose rendering failed and
  the summary table; each key is absent (\<open>None\<close>) until the program assigns it. The
  names and the statistics the report prints are further keys the functions modelled
  here never read.
\<close>

record main_document =
  missing_templates :: "string list option"
  templates_missing_ndi_support :: "string list option"
  syntax_error_templates :: "string list option"
  undefined_error_templates :: "string list option"
  summary_table :: "summary_row list option"

text \<open>
  The values of the combined findings dictionary: a rendered finding, one of the
  \<^verbatim>\<open>*_analysis_enabled\<close> flags, the main document, or \<^verbatim>\<open>None\<close> (what
  \<^verbatim>\<open>hw_inventory\<close> holds when there is no inventory).
\<close>

datatype fval = Rendered finding | Flag bool | MainDocument main_document | NoneVal

type_synonym findings = "(string, fval) dict"

text \<open>
  \<^verbatim>\<open>generate_audit_report\<close>, "Combining findings into a single dictionary": the first
  enabled source is copied, the later ones are merged into the copy with
  \<^verbatim>\<open>dict.update\<close>, then the three flags are assigned. With no source enabled the
  program logs an error and ends with \<^verbatim>\<open>exit(1)\<close>.
\<close>

definition set_enabled_flags :: "bool \<Rightarrow> bool \<Rightarrow> bool \<Rightarrow> findings \<Rightarrow> findings" where
  "set_enabled_flags v n s combined_findings =
     AList.update ''ssd_analysis_enabled'' (Flag s)
       (AList.update ''nae_analysis_enabled'' (Flag n)
          (AList.update ''vetR_analysis_enabled'' (Flag v) combined_findings))"

definition combine_findings ::
  "bool \<Rightarrow> bool \<Rightarrow> bool \<Rightarrow> findings \<Rightarrow> findings \<Rightarrow> findings \<Rightarrow> py_error + findings" where
  "combine_findings enable_vetr enable_nae enable_ssd
       vetR_audit_output nae_audit_output ssd_audit_output =
     (if enable_vetr \<and> enable_nae \<and> enable_ssd then
        Inr (set_enabled_flags True True True
               (dict_update (dict_update vetR_audit_output nae_audit_output) ssd_audit_output))
      else if enable_vetr \<and> enable_nae then
        Inr (set_enabled_flags True True False (dict_update vetR_audit_output nae_audit_output))
      else if enable_vetr \<and> enable_ssd then
        Inr (set_enabled_flags True False True (dict_update vetR_audit_output ssd_audit_output))
      else if enable_nae \<and> enable_ssd then
        Inr (set_enabled_flags False True True (dict_update nae_audit_output ssd_audit_output))
      else if enable_vetr then
        Inr (set_enabled_flags True False False vetR_audit_output)
      else if enable_nae then
        Inr (set_enabled_flags False True False nae_audit_output)
      else if enable_ssd then
        Inr (set_enabled_flags False False True ssd_audit_output)
      else Inl (Exit 1))"

section \<open>Rendering of the findings\<close>

text \<open>
  The body of the loop of \<^verbatim>\<open>vetr_render_actions\<close> for one finding. The template
  engine and the reader of the template's metadata are collaborators of the program:
  \<open>render_template\<close> stands for \<^verbatim>\<open>TemplateRender.render_template\<close> (a success flag with
  the rendered text, or \<^verbatim>\<open>False\<close> with the error message) and \<open>get_template_metadata\<close>
  for the function of that name.
\<close>

definition render_action ::
  "(string \<Rightarrow> 'd \<Rightarrow> bool \<times> string) \<Rightarrow> (string \<Rightarrow> string \<Rightarrow> bool \<times> finding_metadata) \<Rightarrow>
   string \<Rightarrow> 'd \<Rightarrow> finding" where
  "render_action render_template get_template_metadata action item =
     (let template_file = action @ ''.md'' in
      case render_template template_file item of
        (True, rendered_template_output) \<Rightarrow>
          (case get_template_metadata rendered_template_output template_file of
             (True, md) \<Rightarrow>
               \<lparr>content = Val rendered_template_output, metadata = Val md, error = None\<rparr>
           | (False, md) \<Rightarrow>
               \<lparr>content = Val rendered_template_output, metadata = PyNone,
                error = Some ''Template metadata extraction failed''\<rparr>)
      | (False, rendered_template_output) \<Rightarrow>
          \<lparr>content = PyNone, metadata = PyNone, error = Some rendered_template_output\<rparr>)"

definition vetr_render_actions ::
  "(string \<Rightarrow> 'd \<Rightarrow> bool \<times> string) \<Rightarrow> (string \<Rightarrow> string \<Rightarrow> bool \<times> finding_metadata) \<Rightarrow>
   (string, 'd) dict \<Rightarrow> string list \<Rightarrow> (string, finding) dict" where
  "vetr_render_actions render_template get_template_metadata vetr_actions ignore_list_vetR =
     foldl (\<lambda>rendered_output (action, item).
              if action \<in> set ignore_list_vetR then rendered_output
              else AList.update action
                     (render_action render_template get_template_metadata action item)
                     rendered_output)
       [] vetr_actions"

section \<open>Summary table\<close>

definition ignore_findings :: "string list" where
  "ignore_findings =
     [''vetR_analysis_enabled'', ''nae_analysis_enabled'', ''ssd_analysis_enabled'',
      ''main_document'', ''hw_inventory'']"

definition priority_mapping_schema :: "(string, string) dict" where
  "priority_mapping_schema =
     [(''emergency'', ''1 - Critical''), (''alert'', ''1 - Critical''),
      (''critical'', ''1 - Critical''), (''error'', ''2 - Warning''),
      (''warning'', ''2 - Warning''), (''notice'', ''3 - Informational''),
      (''info'', ''3 - Informational''), (''debug'', ''99 - Debug''), (''ok'', ''0 - Health''),
      (''invisible'', ''100 - Invisible'')]"

text \<open>
  \<^verbatim>\<open>findings["main_document"]\<close>: a missing key raises \<^verbatim>\<open>KeyError\<close>, a value that
  is no dictionary fails with \<^verbatim>\<open>TypeError\<close> where the program subscripts it.
\<close>

definition get_main_document :: "findings \<Rightarrow> py_error + main_document" where
  "get_main_document findings =
     (case map_of findings ''main_document'' of
        None \<Rightarrow> Inl KeyError
      | Some (MainDocument m) \<Rightarrow> Inr m
      | Some _ \<Rightarrow> Inl TypeError)"

text \<open>
  \<^verbatim>\<open>if key not in findings["main_document"]: findings["main_document"][key] = list()\<close>
  followed by \<^verbatim>\<open>findings["main_document"][key].append(item)\<close>, for the key read by
  \<open>get\<close> and written by \<open>put\<close>.
\<close>

definition bucket_append :: "string list option \<Rightarrow> string \<Rightarrow> string list option" where
  "bucket_append bucket item = Some ((case bucket of None \<Rightarrow> [] | Some l \<Rightarrow> l) @ [item])"

definition add_to_bucket ::
  "(main_document \<Rightarrow> string list option) \<Rightarrow> (string list option \<Rightarrow> main_document \<Rightarrow> main_document) \<Rightarrow>
   string \<Rightarrow> findings \<Rightarrow> py_error + findings" where
  "add_to_bucket get put item findings =
     (case get_main_document findings of
        Inl e \<Rightarrow> Inl e
      | Inr m \<Rightarrow>
          Inr (AList.update ''main_document''
                 (MainDocument (put (bucket_append (get m) item) m)) findings))"

text \<open>
  The branch \<^verbatim>\<open>elif "error" in findings[__item]\<close>: an \<^verbatim>\<open>if\<close> for the missing
  template, then a separate \<^verbatim>\<open>if\<close>/\<^verbatim>\<open>elif\<close>/\<^verbatim>\<open>elif\<close> chain for the other three
  messages, and nothing for any other message.
\<close>

definition record_error :: "string \<Rightarrow> string \<Rightarrow> findings \<Rightarrow> py_error + findings" where
  "record_error item msg findings =
     (case (if startswith msg ''Template missing''
            then add_to_bucket missing_templates (\<lambda>b m. m\<lparr>missing_templates := b\<rparr>) item findings
            else Inr findings) of
        Inl e \<Rightarrow> Inl e
      | Inr findings1 \<Rightarrow>
          (if startswith msg ''NDI support missing in template'' then
             add_to_bucket templates_missing_ndi_support
               (\<lambda>b m. m\<lparr>templates_missing_ndi_support := b\<rparr>) item findings1
           else if startswith msg ''Syntax error in Template'' then
             add_to_bucket syntax_error_templates
               (\<lambda>b m. m\<lparr>syntax_error_templates := b\<rparr>) item findings1
           else if startswith msg ''Undefined error while rendering template'' then
             add_to_bucket undefined_error_templates
               (\<lambda>b m. m\<lparr>undefined_error_templates := b\<rparr>) item findings1
           else Inr findings1))"

definition item_source :: "string \<Rightarrow> string" where
  "item_source item =
     (case split_sep CHR ''_'' item of
        [] \<Rightarrow> ''99 - ''
      | c # _ \<Rightarrow>
          (if c = ''ssd'' then ''1 - ssd''
           else if c = ''vetR'' then ''2 - vetR''
           else if c = ''nae'' then ''3 - nae''
           else ''99 - '' @ c))"

definition item_priority :: "finding_metadata \<Rightarrow> string" where
  "item_priority md =
     (case severity md of
        None \<Rightarrow> ''-''
      | Some item_severity \<Rightarrow>
          (case map_of priority_mapping_schema (lower item_severity) of
             None \<Rightarrow> ''-''
           | Some p \<Rightarrow> p))"

definition item_affected_count :: "finding_metadata \<Rightarrow> string" where
  "item_affected_count md = (case affected_count md of None \<Rightarrow> ''-'' | Some c \<Rightarrow> c)"

text \<open>
  The branch that builds a row. \<open>findall_headline\<close> stands for
  \<^verbatim>\<open>re.findall("#+\s(.+)\n", content)\<close>. A finding without the key
  \<^verbatim>\<open>metadata\<close>, or with \<^verbatim>\<open>None\<close> for it, gets no row (\<open>Inr None\<close>); a missing
  \<^verbatim>\<open>content\<close> key gives the headline \<^verbatim>\<open>-\<close>; a content without a headline
  raises \<^verbatim>\<open>IndexError\<close> and a content of \<^verbatim>\<open>None\<close> \<^verbatim>\<open>TypeError\<close>, which
  the \<^verbatim>\<open>except KeyError\<close> clauses do not catch.
\<close>

definition summary_row_of ::
  "(string \<Rightarrow> string list) \<Rightarrow> string \<Rightarrow> finding \<Rightarrow> py_error + summary_row option" where
  "summary_row_of findall_headline item f =
     (case metadata f of
        Absent \<Rightarrow> Inr None
      | PyNone \<Rightarrow> Inr None
      | Val md \<Rightarrow>
          (case (case content f of
                   Absent \<Rightarrow> Inr ''-''
                 | PyNone \<Rightarrow> Inl TypeError
                 | Val c \<Rightarrow>
                     (case findall_headline c of
                        [] \<Rightarrow> Inl IndexError
                      | h # _ \<Rightarrow> Inr h)) of
             Inl e \<Rightarrow> Inl e
           | Inr item_headline \<Rightarrow>
               Inr (Some \<lparr>name = item, headline = item_headline, tool_source = item_source item,
                          priority = item_priority md,
                          affected_count_of = item_affected_count md\<rparr>)))"

text \<open>
  One pass of \<^verbatim>\<open>for __item in findings\<close>. The state is the findings dictionary (the
  program changes \<^verbatim>\<open>findings["main_document"]\<close> in place) and the rows collected so
  far. \<^verbatim>\<open>"error" in x\<close> for a flag or for \<^verbatim>\<open>None\<close> raises \<^verbatim>\<open>TypeError\<close>.
\<close>

definition summary_step ::
  "(string \<Rightarrow> string list) \<Rightarrow> string \<Rightarrow> findings \<times> summary_row list \<Rightarrow>
   py_error + findings \<times> summary_row list" where
  "summary_step findall_headline item st =
     (case st of (findings, table) \<Rightarrow>
        if item \<in> set ignore_findings then Inr (findings, table)
        else
          (case map_of findings item of
             None \<Rightarrow> Inl KeyError
           | Some (Flag b) \<Rightarrow> Inl TypeError
           | Some NoneVal \<Rightarrow> Inl TypeError
           | Some (MainDocument m) \<Rightarrow> Inr (findings, table)
           | Some (Rendered f) \<Rightarrow>
               (case error f of
                  Some msg \<Rightarrow>
                    (case record_error item msg findings of
                       Inl e \<Rightarrow> Inl e
                     | Inr findings1 \<Rightarrow> Inr (findings1, table))
                | None \<Rightarrow>
                    (case summary_row_of findall_headline item f of
                       Inl e \<Rightarrow> Inl e
                     | Inr None \<Rightarrow> Inr (findings, table)
                     | Inr (Some row) \<Rightarrow> Inr (findings, table @ [row])))))"

fun summary_loop ::
  "(string \<Rightarrow> string list) \<Rightarrow> string list \<Rightarrow> findings \<times> summary_row list \<Rightarrow>
   py_error + findings \<times> summary_row list" where
  "summary_loop findall_headline [] st = Inr st"
| "summary_loop findall_headline (item # items) st =
     (case summary_step findall_headline item st of
        Inl e \<Rightarrow> Inl e
      | Inr st1 \<Rightarrow> summary_loop findall_headline items st1)"

definition create_findings_summary_table ::
  "(string \<Rightarrow> string list) \<Rightarrow> findings \<Rightarrow> py_error + findings" where
  "create_findings_summary_table findall_headline findings =
     (case summary_loop findall_headline (keys findings) (findings, []) of
        Inl e \<Rightarrow> Inl e
      | Inr (findings1, table) \<Rightarrow>
          (case get_main_document findings1 of
             Inl e \<Rightarrow> Inl e
           | Inr m \<Rightarrow>
               Inr (AList.update ''main_document''
                      (MainDocument (m\<lparr>summary_table := Some table\<rparr>)) findings1)))"

section \<open>Notions the properties are stated with\<close>

text \<open>The entries a source contributes to the merge: its own when it is enabled, none otherwise.\<close>

definition source_items :: "bool \<Rightarrow> findings \<Rightarrow> (string \<rightharpoonup> fval)" where
  "source_items enabled d = (if enabled then map_of d else Map.empty)"

text \<open>Two rendered findings for the examples.\<close>

definition finding_a :: finding where
  "finding_a = \<lparr>content = Val ''# A'', metadata = PyNone, error = None\<rparr>"

definition finding_b :: finding where
  "finding_b = \<lparr>content = Val ''# B'', metadata = PyNone, error = None\<rparr>"

text \<open>
  For the summary table: the findings a bucket of the main document lists, the error
  message a finding carries, the findings outside the bookkeeping keys whose message
  starts with a prefix, and the growth of the four buckets from one main document to
  another.
\<close>

definition bucket_items :: "string list option \<Rightarrow> string set" where
  "bucket_items bucket = (case bucket of None \<Rightarrow> {} | Some l \<Rightarrow> set l)"

definition error_of :: "findings \<Rightarrow> string \<Rightarrow> string option" where
  "error_of findings item =
     (case map_of findings item of Some (Rendered f) \<Rightarrow> error f | _ \<Rightarrow> None)"

definition failed_with :: "findings \<Rightarrow> string \<Rightarrow> string \<Rightarrow> bool" where
  "failed_with findings prefix item =
     (item \<notin> set ignore_findings \<and>
      (case error_of findings item of None \<Rightarrow> False | Some msg \<Rightarrow> startswith msg prefix))"

definition extends ::
  "main_document \<Rightarrow> main_document \<Rightarrow> string set \<Rightarrow> string set \<Rightarrow> string set \<Rightarrow> string set \<Rightarrow> bool" where
  "extends m m' A B C D =
     (bucket_items (missing_templates m') = bucket_items (missing_templates m) \<union> A \<and>
      bucket_items (templates_missing_ndi_support m') =
        bucket_items (templates_missing_ndi_support m) \<union> B \<and>
      bucket_items (syntax_error_templates m') = bucket_items (syntax_error_templates m) \<union> C \<and>
      bucket_items (undefined_error_templates m') =
        bucket_items (undefined_error_templates m) \<union> D \<and>
      summary_table m' = summary_table m)"

definition failed_set :: "findings \<Rightarrow> string \<Rightarrow> string list \<Rightarrow> string set" where
  "failed_set findings prefix items = {i \<in> set items. failed_with findings prefix i}"

definition row_candidates :: "findings \<Rightarrow> string list \<Rightarrow> string set" where
  "row_candidates findings items =
     {i \<in> set items. i \<notin> set ignore_findings \<and> error_of findings i = None}"

text \<open>
  Examples for the summary table: a main document without buckets, a renderer that
  succeeds, one that misses the template, a metadata reader that fails, and the findings
  they give.
\<close>

definition empty_document :: main_document where
  "empty_document =
     \<lparr>missing_templates = None, templates_missing_ndi_support = None,
      syntax_error_templates = None, undefined_error_templates = None, summary_table = None\<rparr>"

definition render_ok :: "string \<Rightarrow> unit \<Rightarrow> bool \<times> string" where
  "render_ok template_file item = (True, ''# Finding'')"

definition render_missing :: "string \<Rightarrow> unit \<Rightarrow> bool \<times> string" where
  "render_missing template_file item = (False, ''Template missing '' @ template_file)"

definition metadata_unreadable :: "string \<Rightarrow> string \<Rightarrow> bool \<times> finding_metadata" where
  "metadata_unreadable template_content template_file =
     (False, \<lparr>severity = None, affected_count = None\<rparr>)"

definition no_headline :: "string \<Rightarrow> string list" where
  "no_headline c = []"

definition findings_without_metadata :: findings where
  "findings_without_metadata =
     [(''vetR_x'', Rendered (render_action render_ok metadata_unreadable ''vetR_x'' ())),
      (''main_document'', MainDocument empty_document)]"

definition findings_two_errors :: findings where
  "findings_two_errors =
     [(''vetR_a'', Rendered (render_action render_missing metadata_unreadable ''vetR_a'' ())),
      (''vetR_b'', Rendered (render_action render_ok metadata_unreadable ''vetR_b'' ())),
      (''main_document'', MainDocument empty_document)]"

section \<open>Recommendation path extractor\<close>

text \<open>
  What \<^verbatim>\<open>json.load\<close> returns: \<^verbatim>\<open>None\<close>, a truth value, a number, a string, a list
  or a dictionary with string keys.
\<close>

datatype json =
  JNull | JBool bool | JNum real | JStr string | JList "json list" | JDict "(string \<times> json) list"

definition is_container :: "json \<Rightarrow> bool" where
  "is_container v = (case v of JDict kvs \<Rightarrow> True | JList ds \<Rightarrow> True | _ \<Rightarrow> False)"

text \<open>\<^verbatim>\<open>if len(__path) > 0: __path.pop()\<close>\<close>

definition pop :: "'a list \<Rightarrow> 'a list" where
  "pop path = (if length path > 0 then butlast path else path)"

text \<open>
  \<^verbatim>\<open>get_nested_dict_entries_containing_key\<close> is a generator that shares one mutable
  list \<^verbatim>\<open>__path\<close> among all its recursive calls. The model returns the pairs yielded,
  in order, each with the contents the list has at the moment of the \<^verbatim>\<open>yield\<close> (the
  caller, \<^verbatim>\<open>vetr_analyse_output\<close>, reads the path before it resumes the generator),
  and the list as the call leaves it. A path is a list of Python values: a key of a
  dictionary goes in as the string it is, and for a list the statement is
  \<^verbatim>\<open>__path.append(d)\<close> with \<^verbatim>\<open>d\<close> the element of the list, so the element itself
  goes in. \<open>walk_items\<close> is the loop over \<^verbatim>\<open>__var.items()\<close>, \<open>walk_elements\<close> the
  loop \<^verbatim>\<open>for d in __var\<close>.
\<close>

function (sequential)
  get_nested_dict_entries_containing_key ::
    "json \<Rightarrow> string \<Rightarrow> json list \<Rightarrow> (json list \<times> json) list \<times> json list"
  and walk_items ::
    "(string \<times> json) list \<Rightarrow> string \<Rightarrow> json list \<Rightarrow> (json list \<times> json) list \<times> json list"
  and walk_elements ::
    "json list \<Rightarrow> string \<Rightarrow> json list \<Rightarrow> (json list \<times> json) list \<times> json list"
where
  "get_nested_dict_entries_containing_key (JDict kvs) key path =
     (if key \<in> set (keys kvs) then ([(path, JDict kvs)], pop path)
      else (case walk_items kvs key path of (found, path1) \<Rightarrow> (found, pop path1)))"
| "get_nested_dict_entries_containing_key (JList ds) key path =
     (case walk_elements ds key path of (found, path1) \<Rightarrow> (found, pop path1))"
| "get_nested_dict_entries_containing_key v key path = ([], pop path)"
| "walk_items [] key path = ([], path)"
| "walk_items ((k, v) # kvs) key path =
     (if is_container v then
        (case get_nested_dict_entries_containing_key v key (path @ [JStr k]) of
           (found, path1) \<Rightarrow>
             (case walk_items kvs key path1 of (found2, path2) \<Rightarrow> (found @ found2, path2)))
      else walk_items kvs key path)"
| "walk_elements [] key path = ([], path)"
| "walk_elements (d # ds) key path =
     (case get_nested_dict_entries_containing_key d key (path @ [d]) of
        (found, path1) \<Rightarrow>
          (case walk_elements ds key path1 of (found2, path2) \<Rightarrow> (found @ found2, path2)))"
  by pat_completeness auto
termination
  by (relation "measure (\<lambda>x. case x of
          Inl (v, key, path) \<Rightarrow> size v
        | Inr (Inl (kvs, key, path)) \<Rightarrow> size_list (size_prod (\<lambda>_. 0) size) kvs
        | Inr (Inr (ds, key, path)) \<Rightarrow> size_list size ds)") auto

section \<open>Remote assurance client: paginated retrieval (variant ndi)\<close>

text \<open>
  \<^verbatim>\<open>nae_session.ndi_get_smart_events_by_fabric_name\<close>, the retrieval of the summary
  pages ("Query smart events" up to "Maintain a list of events without details"). The
  service is a function from the offset requested to its answer, \<open>None\<close> when
  \<^verbatim>\<open>handle_request\<close> gives nothing; the offsets requested are recorded, in order, next
  to the result.
\<close>

record ndi_event =
  mnemonicTitle :: string
  anomalyStr :: string
  event_severity :: string

record ndi_response =
  totalResultsCount :: "int option"
  entries :: "ndi_event list"

record smart_event =
  event_list :: "string list list"
  smart_severity :: string
  description :: string
  data_source :: "string option"

definition max_response_count :: int where
  "max_response_count = 100"

definition test_prefix :: string where
  "test_prefix = ''nae_''"

text \<open>The body of \<^verbatim>\<open>for __event in __response["entries"]\<close> on the first page.\<close>

definition add_event_first_page :: "(string, smart_event) dict \<Rightarrow> ndi_event \<Rightarrow> (string, smart_event) dict" where
  "add_event_first_page output event =
     (let event_name = test_prefix @ mnemonicTitle event in
      AList.update event_name
        \<lparr>event_list = (case map_of output event_name of None \<Rightarrow> [] | Some e \<Rightarrow> event_list e),
         smart_severity = event_severity event,
         description = anomalyStr event,
         data_source = Some ''ndi''\<rparr>
        output)"

text \<open>
  The body of the same loop on a later page: the key \<^verbatim>\<open>data_source\<close> is neither
  created nor assigned, and the last statement of the body is
  \<^verbatim>\<open>__current_page_count = __current_page_count + 1\<close>, so the page counter goes up
  once for every event of the page.
\<close>

definition add_event_later_page ::
  "(string, smart_event) dict \<times> int \<Rightarrow> ndi_event \<Rightarrow> (string, smart_event) dict \<times> int" where
  "add_event_later_page st event =
     (case st of (output, current_page_count) \<Rightarrow>
        let event_name = test_prefix @ mnemonicTitle event in
        (AList.update event_name
           \<lparr>event_list = (case map_of output event_name of None \<Rightarrow> [] | Some e \<Rightarrow> event_list e),
            smart_severity = event_severity event,
            description = anomalyStr event,
            data_source = (case map_of output event_name of None \<Rightarrow> None | Some e \<Rightarrow> data_source e)\<rparr>
           output,
         current_page_count + 1))"

text \<open>
  \<^verbatim>\<open>while __current_page_count < __total_page_count\<close>. A page without entries leaves
  the counter where it is and the loop requests the same offset again, so the loop need
  not end: \<open>fuel\<close> bounds the number of requests, and \<open>None\<close> says the bound was
  reached with the loop still running. A failed request returns \<^verbatim>\<open>(False, "")\<close>.
\<close>

fun ndi_more_pages ::
  "nat \<Rightarrow> (int \<Rightarrow> ndi_response option) \<Rightarrow> int \<Rightarrow> int \<Rightarrow> (string, smart_event) dict \<Rightarrow> int list \<Rightarrow>
   (int list \<times> (py_error + bool \<times> (string, smart_event) dict)) option" where
  "ndi_more_pages fuel fetch total_page_count current_page_count output requested =
     (if current_page_count < total_page_count then
        (case fuel of
           0 \<Rightarrow> None
         | Suc fuel' \<Rightarrow>
             (let offset = current_page_count * max_response_count in
              case fetch offset of
                None \<Rightarrow> Some (requested @ [offset], Inr (False, []))
              | Some response \<Rightarrow>
                  (case foldl add_event_later_page (output, current_page_count) (entries response) of
                     (output1, current1) \<Rightarrow>
                       ndi_more_pages fuel' fetch total_page_count current1 output1
                         (requested @ [offset]))))
      else Some (requested, Inr (True, output)))"

text \<open>
  The first request and the page count
  \<^verbatim>\<open>-(-int(__response["totalResultsCount"]) // __max_response_count)\<close>. When the first
  request fails the program evaluates \<^verbatim>\<open>logger.error("...") % assurance_group\<close>, that
  is \<^verbatim>\<open>None % str\<close>, which raises \<^verbatim>\<open>TypeError\<close>.
\<close>

definition ndi_get_smart_events_summary ::
  "nat \<Rightarrow> (int \<Rightarrow> ndi_response option) \<Rightarrow>
   (int list \<times> (py_error + bool \<times> (string, smart_event) dict)) option" where
  "ndi_get_smart_events_summary fuel fetch =
     (case fetch 0 of
        None \<Rightarrow> Some ([0], Inl TypeError)
      | Some response \<Rightarrow>
          (case totalResultsCount response of
             None \<Rightarrow> Some ([0], Inr (True, []))
           | Some n \<Rightarrow>
               (let total_page_count = - ((- n) div max_response_count);
                    output = foldl add_event_first_page [] (entries response)
                in if total_page_count > 1
                   then ndi_more_pages fuel fetch total_page_count 1 output [0]
                   else Some ([0], Inr (True, output)))))"

text \<open>A service with 250 results in pages of 100, 100 and 50 entries.\<close>

definition sample_event :: ndi_event where
  "sample_event = \<lparr>mnemonicTitle = ''EVENT'', anomalyStr = ''text'', event_severity = ''major''\<rparr>"

definition full_pages :: "int \<Rightarrow> ndi_response option" where
  "full_pages offset =
     (if offset = 0 \<or> offset = 100
      then Some \<lparr>totalResultsCount = Some 250, entries = replicate 100 sample_event\<rparr>
      else if offset = 200
      then Some \<lparr>totalResultsCount = Some 250, entries = replicate 50 sample_event\<rparr>
      else None)"

section \<open>Threshold-based text report analyzer\<close>

text \<open>
  The characters \<^verbatim>\<open>str.strip()\<close> removes and \<^verbatim>\<open>\s\<close> matches (below code point
  256), the characters \<^verbatim>\<open>\d\<close> matches there, and \<^verbatim>\<open>str.strip()\<close>.
\<close>

definition is_space :: "char \<Rightarrow> bool" where
  "is_space c =
     (let n = (of_char c :: nat) in
      (9 \<le> n \<and> n \<le> 13) \<or> (28 \<le> n \<and> n \<le> 32) \<or> n = 133 \<or> n = 160)"

definition is_digit :: "char \<Rightarrow> bool" where
  "is_digit c = (let n = (of_char c :: nat) in 48 \<le> n \<and> n \<le> 57)"

definition strip :: "string \<Rightarrow> string" where
  "strip s = rev (dropWhile is_space (rev (dropWhile is_space s)))"

text \<open>
  The three regular expressions, each anchored at the start by \<^verbatim>\<open>^\<close>. \<^verbatim>\<open>$\<close>
  matches at the end of the string and before a newline that ends it, and \<^verbatim>\<open>.\<close>
  matches every character but the newline: what stands before \<^verbatim>\<open>$\<close> is matched
  against \<open>chomp\<close> of the text.
\<close>

definition chomp :: "string \<Rightarrow> string" where
  "chomp s = (if s \<noteq> [] \<and> last s = CHR 0x0A then butlast s else s)"

text \<open>\<^verbatim>\<open>re.search("^Node: (\d+)$", line)\<close>: group 1.\<close>

definition match_node :: "string \<Rightarrow> string option" where
  "match_node line =
     (if startswith line ''Node: '' then
        (let ds = chomp (drop 6 line)
         in if ds \<noteq> [] \<and> list_all is_digit ds then Some ds else None)
      else None)"

text \<open>\<^verbatim>\<open>re.search("^Model: (.+)$", line)\<close>: group 1.\<close>

definition match_model :: "string \<Rightarrow> string option" where
  "match_model line =
     (if startswith line ''Model: '' then
        (let m = chomp (drop 7 line)
         in if m \<noteq> [] \<and> CHR 0x0A \<notin> set m then Some m else None)
      else None)"

text \<open>
  \<^verbatim>\<open>re.search("^(.+)\s+\((\d+)\):.+\((.+)%\)$", line)\<close>. The quantifiers are greedy
  and the engine backtracks, so the match found is the one with the longest group 1 and,
  for it, the longest \<^verbatim>\<open>.+\<close> before the last parenthesis.

  \<open>last_open\<close>: the text after the last \<^verbatim>\<open>(\<close> that has text after it.
  \<open>match_tail\<close>: \<^verbatim>\<open>.+\((.+)%\)$\<close> against the whole of a text, giving group 3.
  \<open>match_rest\<close>: \<^verbatim>\<open>\s+\((\d+)\):.+\((.+)%\)$\<close> against the whole of a text, giving
  groups 2 and 3. \<open>match_from\<close> tries the splits of the line into group 1 and the rest,
  the longest group 1 first.
\<close>

fun last_open :: "string \<Rightarrow> string option" where
  "last_open [] = None"
| "last_open (c # cs) =
     (case last_open cs of
        Some g \<Rightarrow> Some g
      | None \<Rightarrow> (if c = CHR ''('' \<and> cs \<noteq> [] then Some cs else None))"

definition match_tail :: "string \<Rightarrow> string option" where
  "match_tail t =
     (let t' = chomp t in
      if 2 \<le> length t' \<and> drop (length t' - 2) t' = ''%)'' then
        (let t0 = take (length t' - 2) t' in
         if CHR 0x0A \<in> set t0 then None
         else (case t0 of [] \<Rightarrow> None | b # rest \<Rightarrow> last_open rest))
      else None)"

definition match_rest :: "string \<Rightarrow> (string \<times> string) option" where
  "match_rest r =
     (if takeWhile is_space r = [] then None
      else
        (case dropWhile is_space r of
           [] \<Rightarrow> None
         | p # r2 \<Rightarrow>
             if p \<noteq> CHR ''('' \<or> takeWhile is_digit r2 = [] then None
             else
               (case dropWhile is_digit r2 of
                  q # c # t \<Rightarrow>
                    if q = CHR '')'' \<and> c = CHR '':''
                    then map_option (\<lambda>u. (takeWhile is_digit r2, u)) (match_tail t)
                    else None
                | _ \<Rightarrow> None)))"

fun match_from :: "string \<Rightarrow> string \<Rightarrow> (string \<times> string \<times> string) option" where
  "match_from pre [] = None"
| "match_from pre (c # cs) =
     (case match_from (pre @ [c]) cs of
        Some m \<Rightarrow> Some m
      | None \<Rightarrow>
          (if pre \<noteq> [] \<and> CHR 0x0A \<notin> set pre
           then map_option (\<lambda>(d, u). (pre, d, u)) (match_rest (c # cs))
           else None))"

definition match_usage :: "string \<Rightarrow> (string \<times> string \<times> string) option" where
  "match_usage line = match_from [] line"

text \<open>
  A Python \<^verbatim>\<open>float\<close>: a real number, an infinity or not-a-number, and the comparison
  \<^verbatim>\<open>x >= t\<close> with a finite threshold.
\<close>

datatype pyfloat = Finite real | PosInf | NegInf | NaN

definition float_ge :: "pyfloat \<Rightarrow> real \<Rightarrow> bool" where
  "float_ge x t = (case x of Finite r \<Rightarrow> t \<le> r | PosInf \<Rightarrow> True | NegInf \<Rightarrow> False | NaN \<Rightarrow> False)"

definition ssd_thresholds_major :: real where
  "ssd_thresholds_major = 80"

definition ssd_thresholds_critical :: real where
  "ssd_thresholds_critical = 90"

text \<open>
  \<^verbatim>\<open>__ssd_usage\<close>: the dictionary of the node being read, with the key \<^verbatim>\<open>node\<close>, the
  key \<^verbatim>\<open>model\<close> once a model line was read, and a key \<^verbatim>\<open>type_<id>\<close> for every
  usage line, in the order of their first occurrence.
\<close>

record usage_entry =
  type_description :: string
  type_id :: string
  type_usage :: pyfloat

record ssd_usage =
  node :: string
  model :: "string option"
  types :: "(string, usage_entry) dict"

text \<open>
  \<^verbatim>\<open>__ssd_action\<close>: the flag and the two lists
  \<^verbatim>\<open>__ssd_action["affected_nodes"]["critical"]\<close> and
  \<^verbatim>\<open>__ssd_action["affected_nodes"]["major"]\<close>.
\<close>

record ssd_action =
  actionRecommended :: bool
  critical :: "string list"
  major :: "string list"

text \<open>"Check critical threshold" and "Check major threshold" for one entry of a node.\<close>

definition check_thresholds :: "string \<Rightarrow> ssd_action \<Rightarrow> usage_entry \<Rightarrow> ssd_action" where
  "check_thresholds node_name a e =
     (let a1 =
        (if float_ge (type_usage e) ssd_thresholds_critical then
           a\<lparr>actionRecommended := True,
             critical := (if node_name \<notin> set (critical a) then critical a @ [node_name]
                          else critical a)\<rparr>
         else a)
      in
        if float_ge (type_usage e) ssd_thresholds_major then
          a1\<lparr>actionRecommended := True,
              major := (if node_name \<notin> set (major a1) \<and> node_name \<notin> set (critical a1)
                        then major a1 @ [node_name] else major a1)\<rparr>
        else a1)"

text \<open>
  \<^verbatim>\<open>for __entry in __ssd_usage.keys()\<close>, which skips \<^verbatim>\<open>node\<close> and \<^verbatim>\<open>model\<close>.
\<close>

definition evaluate_usage :: "ssd_usage \<Rightarrow> ssd_action \<Rightarrow> ssd_action" where
  "evaluate_usage u a = foldl (check_thresholds (node u)) a (map snd (types u))"

text \<open>
  One line of the report. \<open>to_float\<close> stands for Python's \<^verbatim>\<open>float\<close> on a string,
  \<open>None\<close> where it raises \<^verbatim>\<open>ValueError\<close>. The state is \<^verbatim>\<open>__ssd_usage\<close>
  (\<open>None\<close> for \<^verbatim>\<open>None\<close>) and \<^verbatim>\<open>__ssd_action\<close>.
\<close>

definition ssd_line ::
  "(string \<Rightarrow> pyfloat option) \<Rightarrow> ssd_usage option \<times> ssd_action \<Rightarrow> string \<Rightarrow>
   py_error + ssd_usage option \<times> ssd_action" where
  "ssd_line to_float st raw_line =
     (case st of (usage, action) \<Rightarrow>
        let line = strip raw_line in
        if startswith line ''Node:'' then
          (let action1 = (case usage of None \<Rightarrow> action | Some u \<Rightarrow> evaluate_usage u action)
           in case match_node line of
                Some node_id \<Rightarrow>
                  Inr (Some \<lparr>node = ''node-'' @ node_id, model = None, types = []\<rparr>, action1)
              | None \<Rightarrow> Inr (None, action1))
        else if startswith line ''Model:'' then
          (case match_model line of
             Some ssd_model \<Rightarrow>
               (case usage of
                  Some u \<Rightarrow> Inr (Some (u\<lparr>model := Some ssd_model\<rparr>), action)
                | None \<Rightarrow> Inr (usage, action))
           | None \<Rightarrow> Inr (usage, action))
        else if line = [] then Inr (usage, action)
        else
          (case match_usage line of
             Some (descr, ident, percentage) \<Rightarrow>
               (case usage of
                  Some u \<Rightarrow>
                    (case to_float percentage of
                       None \<Rightarrow> Inl ValueError
                     | Some x \<Rightarrow>
                         Inr (Some (u\<lparr>types :=
                                AList.update (''type_'' @ ident)
                                  \<lparr>type_description = descr, type_id = ident,
                                   type_usage = x\<rparr>
                                  (types u)\<rparr>), action))
                | None \<Rightarrow> Inr (usage, action))
           | None \<Rightarrow> Inr (usage, action)))"

fun ssd_lines ::
  "(string \<Rightarrow> pyfloat option) \<Rightarrow> ssd_usage option \<times> ssd_action \<Rightarrow> string list \<Rightarrow>
   py_error + ssd_usage option \<times> ssd_action" where
  "ssd_lines to_float st [] = Inr st"
| "ssd_lines to_float st (l # ls) =
     (case ssd_line to_float st l of
        Inl e \<Rightarrow> Inl e
      | Inr st1 \<Rightarrow> ssd_lines to_float st1 ls)"

definition initial_action :: ssd_action where
  "initial_action = \<lparr>actionRecommended = False, critical = [], major = []\<rparr>"

definition test_name :: string where
  "test_name = ''ssd_faults''"

definition ssd_analyze_output ::
  "(string \<Rightarrow> pyfloat option) \<Rightarrow> string list \<Rightarrow> py_error + (string, ssd_action) dict" where
  "ssd_analyze_output to_float ssd_data =
     (case ssd_lines to_float (None, initial_action) ssd_data of
        Inl e \<Rightarrow> Inl e
      | Inr (usage, action) \<Rightarrow>
          (let action1 = (case usage of None \<Rightarrow> action | Some u \<Rightarrow> evaluate_usage u action)
           in Inr (if actionRecommended action1 then [(test_name, action1)] else [])))"

text \<open>
  \<^verbatim>\<open>float\<close> on a string of decimal digits; the examples use it for \<open>to_float\<close>.
\<close>

definition float_of_digits :: "string \<Rightarrow> pyfloat option" where
  "float_of_digits s =
     (if s \<noteq> [] \<and> list_all is_digit s
      then Some (Finite (real (foldl (\<lambda>n c. 10 * n + (of_char c - 48)) 0 s)))
      else None)"

text \<open>
  For the text analyzer: the dictionaries of the nodes in the order in which the program
  evaluates them against the thresholds (each when the next \<^verbatim>\<open>Node:\<close> line is read,
  the last one after the last line), and the evaluations this amounts to, one per node
  and usage entry.
\<close>

definition flushed :: "ssd_usage option \<Rightarrow> string \<Rightarrow> ssd_usage list" where
  "flushed usage raw_line =
     (if startswith (strip raw_line) ''Node:''
      then (case usage of None \<Rightarrow> [] | Some u \<Rightarrow> [u]) else [])"

fun evaluated_blocks ::
  "(string \<Rightarrow> pyfloat option) \<Rightarrow> ssd_usage option \<Rightarrow> string list \<Rightarrow> ssd_usage list" where
  "evaluated_blocks to_float usage [] = (case usage of None \<Rightarrow> [] | Some u \<Rightarrow> [u])"
| "evaluated_blocks to_float usage (l # ls) =
     flushed usage l @
     (case ssd_line to_float (usage, initial_action) l of
        Inl e \<Rightarrow> []
      | Inr (usage1, a) \<Rightarrow> evaluated_blocks to_float usage1 ls)"

definition block_evaluations :: "ssd_usage \<Rightarrow> (string \<times> usage_entry) list" where
  "block_evaluations u = map (\<lambda>e. (node u, e)) (map snd (types u))"

definition evaluations ::
  "(string \<Rightarrow> pyfloat option) \<Rightarrow> string list \<Rightarrow> (string \<times> usage_entry) list" where
  "evaluations to_float ssd_data =
     concat (map block_evaluations (evaluated_blocks to_float None ssd_data))"

definition run_checks :: "ssd_action \<Rightarrow> (string \<times> usage_entry) list \<Rightarrow> ssd_action" where
  "run_checks a evs = foldl (\<lambda>a (n, e). check_thresholds n a e) a evs"

text \<open>
  An evaluation of node \<open>n\<close> that reaches the threshold \<open>t\<close>, and the first evaluation
  of \<open>n\<close> that reaches the major threshold being below the critical one.
\<close>

definition reaches :: "real \<Rightarrow> string \<Rightarrow> string \<times> usage_entry \<Rightarrow> bool" where
  "reaches t n p = (fst p = n \<and> float_ge (type_usage (snd p)) t)"

definition enters_major :: "(string \<times> usage_entry) list \<Rightarrow> string \<Rightarrow> bool" where
  "enters_major evs n =
     (case find (reaches ssd_thresholds_major n) evs of
        None \<Rightarrow> False
      | Some p \<Rightarrow> \<not> float_ge (type_usage (snd p)) ssd_thresholds_critical)"

text \<open>
  Reports for the examples, as \<^verbatim>\<open>read_txt\<close> returns them (a list of lines, each with
  its newline): the two-node report of the specification; two nodes with one usage type
  each; a node whose first usage type is over the major threshold only and whose second
  is over the critical one; and a node that the report lists twice.
\<close>

definition report_lines :: "string list \<Rightarrow> string list" where
  "report_lines ls = map (\<lambda>l. l @ [CHR 0x0A]) ls"

definition report_example :: "string list" where
  "report_example =
     report_lines [''Node: 101'', ''Model: X'', ''CPU (1): used (95%)'', '''',
                   ''Node: 102'', ''Model: Y'', ''CPU (1): used (50%)'']"

definition report_two_types :: "string list" where
  "report_two_types =
     report_lines [''Node: 101'', ''CPU (1): used (95%)'', ''Node: 102'', ''Memory (2): used (85%)'']"

definition report_major_then_critical :: "string list" where
  "report_major_then_critical =
     report_lines [''Node: 101'', ''Fan (1): used (85%)'', ''CPU (2): used (95%)'']"

definition report_node_twice :: "string list" where
  "report_node_twice =
     report_lines [''Node: 101'', ''CPU (1): used (85%)'', ''Node: 101'', ''CPU (1): used (95%)'']"

chapter \<open>Properties\<close>

section \<open>Dictionaries\<close>

lemma map_of_dict_update:
  "map_of (dict_update d other) = map_of d ++ map_of (rev other)"
  unfolding dict_update_def
proof (induction other arbitrary: d)
  case Nil
  show ?case by simp
next
  case (Cons p ps)
  obtain k v where p: "p = (k, v)" by (cases p)
  have "map_of (foldl (\<lambda>acc (k, v). AList.update k v acc) (AList.update k v d) ps)
      = map_of (AList.update k v d) ++ map_of (rev ps)"
    by (rule Cons.IH)
  also have "\<dots> = map_of d ++ map_of (rev ps @ [(k, v)])"
    by (simp add: AList.update_conv' map_add_def fun_eq_iff split: option.splits)
  finally show ?case by (simp add: p)
qed

lemma distinct_dict_update:
  "distinct (keys d) \<Longrightarrow> distinct (keys (dict_update d other))"
  unfolding dict_update_def keys_def
  by (induction other arbitrary: d) (auto simp: AList.distinct_update)

lemma map_of_rev_distinct:
  "distinct (map fst xs) \<Longrightarrow> map_of (rev xs) = map_of xs"
  by (rule map_of_inject_set [THEN iffD2]) (simp_all add: distinct_rev rev_map [symmetric])

section \<open>The job monitor\<close>

lemma scan_entries_Nil: "scan_entries jobname [] = None"
  by (simp add: scan_entries_def)

lemma scan_entries_single:
  "scan_entries jobname [\<lparr>jobId = jobname, operSt = s\<rparr>] = Some s"
  by (simp add: scan_entries_def)

lemma ndi_monitor_loop_absent:
  "ndi_monitor_loop 0 jobname (replicate n [] @ rest) = ndi_monitor_loop 0 jobname rest"
  by (induction n) (simp_all add: scan_entries_Nil max_retry_count_def)

text \<open>
  Claim C3. The claim: an absent job is retried at most 6 times, and after
  7 consecutive polls without the job the operation ends fatally. The code: the
  retry counter is never incremented, so however many polls \<open>n\<close> come back without the
  job, the monitor neither exits nor returns (it is still polling), and when the job
  shows up as complete on poll \<open>n + 1\<close> the monitor returns success; with \<open>n = 7\<close>
  this is the input on which the claim promises a fatal end.
\<close>

theorem C3_ndi_monitor_never_gives_up:
  "nae_monitor_analysis_ndi jobname (replicate n []) = Polling \<and>
   nae_monitor_analysis_ndi jobname
     (replicate n [] @ [[\<lparr>jobId = jobname, operSt = ''COMPLETE''\<rparr>]]) = Returned True"
proof -
  have "ndi_monitor_loop 0 jobname (replicate n [] @ []) = Polling"
    by (simp only: ndi_monitor_loop_absent ndi_monitor_loop.simps)
  moreover have "ndi_monitor_loop 0 jobname
      (replicate n [] @ [[\<lparr>jobId = jobname, operSt = ''COMPLETE''\<rparr>]]) = Returned True"
    by (simp add: ndi_monitor_loop_absent scan_entries_single)
  ultimately show ?thesis
    by (simp add: nae_monitor_analysis_ndi_def)
qed

theorem C3_seven_absent_polls:
  "nae_monitor_analysis_ndi ''job-1'' (replicate 7 []) = Polling \<and>
   nae_monitor_analysis_ndi ''job-1''
     (replicate 7 [] @ [[\<lparr>jobId = ''job-1'', operSt = ''COMPLETE''\<rparr>]]) = Returned True"
  using C3_ndi_monitor_never_gives_up [of "''job-1''" 7] by simp

section \<open>Format detection\<close>

lemma distinct_vetr_2_0_8_keys: "distinct vetr_2_0_8_keys"
  by (simp add: vetr_2_0_8_keys_def)

lemma distinct_vetr_2_0_0_keys: "distinct vetr_2_0_0_keys"
  by (simp add: vetr_2_0_0_keys_def)

lemma same_length_subset_eq:
  assumes "distinct xs" "distinct ys" "length xs = length ys" "set xs \<subseteq> set ys"
  shows "set xs = set ys"
proof -
  have "card (set xs) = card (set ys)"
    using assms by (simp add: distinct_card)
  then show ?thesis
    using assms(4) by (simp add: card_subset_eq)
qed

lemma same_set_length:
  assumes "distinct xs" "distinct ys" "set xs = set ys"
  shows "length xs = length ys"
  using assms by (metis distinct_card)

text \<open>
  Claim C7. A mapping (its keys are distinct) whose key set is neither the legacy nor
  the canonical key set is refused with \<^verbatim>\<open>exit(1)\<close>; no version is returned for it.
  This covers the mapping with as many keys as a known format of which one is not a
  key of that format. The converse holds too: the two key sets are detected.
\<close>

theorem C7_unknown_key_set_is_refused:
  assumes "distinct (keys vetr_data)"
  shows "(set (keys vetr_data) \<noteq> set vetr_2_0_0_keys \<and>
          set (keys vetr_data) \<noteq> set vetr_2_0_8_keys
            \<longrightarrow> vetr_check_dataformat vetr_data = Inl (Exit 1)) \<and>
         (set (keys vetr_data) = set vetr_2_0_8_keys
            \<longrightarrow> vetr_check_dataformat vetr_data = Inr ''dataformat_2_0_8'') \<and>
         (set (keys vetr_data) = set vetr_2_0_0_keys
            \<longrightarrow> vetr_check_dataformat vetr_data = Inr ''dataformat_2_0_0'')"
proof -
  have len: "length vetr_2_0_8_keys \<noteq> length vetr_2_0_0_keys"
    by (simp add: vetr_2_0_8_keys_def vetr_2_0_0_keys_def)
  have all8: "list_all (\<lambda>key. List.member vetr_2_0_8_keys key) (keys vetr_data)
      \<longleftrightarrow> set (keys vetr_data) \<subseteq> set vetr_2_0_8_keys"
    by (auto simp: list_all_iff)
  have all0: "list_all (\<lambda>key. List.member vetr_2_0_0_keys key) (keys vetr_data)
      \<longleftrightarrow> set (keys vetr_data) \<subseteq> set vetr_2_0_0_keys"
    by (auto simp: list_all_iff)
  have eq8: "set (keys vetr_data) = set vetr_2_0_8_keys"
    if "length (keys vetr_data) = length vetr_2_0_8_keys"
       "set (keys vetr_data) \<subseteq> set vetr_2_0_8_keys"
    using that assms distinct_vetr_2_0_8_keys by (intro same_length_subset_eq)
  have eq0: "set (keys vetr_data) = set vetr_2_0_0_keys"
    if "length (keys vetr_data) = length vetr_2_0_0_keys"
       "set (keys vetr_data) \<subseteq> set vetr_2_0_0_keys"
    using that assms distinct_vetr_2_0_0_keys by (intro same_length_subset_eq)
  have l8: "length (keys vetr_data) = length vetr_2_0_8_keys"
    if "set (keys vetr_data) = set vetr_2_0_8_keys"
    using that assms distinct_vetr_2_0_8_keys by (intro same_set_length)
  have l0: "length (keys vetr_data) = length vetr_2_0_0_keys"
    if "set (keys vetr_data) = set vetr_2_0_0_keys"
    using that assms distinct_vetr_2_0_0_keys by (intro same_set_length)
  show ?thesis
  proof (cases "length (keys vetr_data) = length vetr_2_0_8_keys")
    case l: True
    have n0: "set (keys vetr_data) \<noteq> set vetr_2_0_0_keys"
      using l l0 len by force
    show ?thesis
    proof (cases "set (keys vetr_data) \<subseteq> set vetr_2_0_8_keys")
      case True
      have "vetr_check_dataformat vetr_data = Inr ''dataformat_2_0_8''"
        by (simp add: vetr_check_dataformat_def l all8 True)
      moreover have "set (keys vetr_data) = set vetr_2_0_8_keys"
        using l True by (rule eq8)
      ultimately show ?thesis using n0 by blast
    next
      case False
      have "vetr_check_dataformat vetr_data = Inl (Exit 1)"
        by (simp add: vetr_check_dataformat_def l all8 False)
      moreover have "set (keys vetr_data) \<noteq> set vetr_2_0_8_keys"
        using False by blast
      ultimately show ?thesis using n0 by blast
    qed
  next
    case nl: False
    have n8: "set (keys vetr_data) \<noteq> set vetr_2_0_8_keys"
      using nl l8 by blast
    show ?thesis
    proof (cases "length (keys vetr_data) = length vetr_2_0_0_keys")
      case l: True
      show ?thesis
      proof (cases "set (keys vetr_data) \<subseteq> set vetr_2_0_0_keys")
        case True
        have "vetr_check_dataformat vetr_data = Inr ''dataformat_2_0_0''"
          using len by (simp add: vetr_check_dataformat_def l all0 True)
        moreover have "set (keys vetr_data) = set vetr_2_0_0_keys"
          using l True by (rule eq0)
        ultimately show ?thesis using n8 by blast
      next
        case False
        have "vetr_check_dataformat vetr_data = Inl (Exit 1)"
          using len by (simp add: vetr_check_dataformat_def l all0 False)
        moreover have "set (keys vetr_data) \<noteq> set vetr_2_0_0_keys"
          using False by blast
        ultimately show ?thesis using n8 by blast
      qed
    next
      case False
      have "vetr_check_dataformat vetr_data = Inl (Exit 1)"
        by (simp add: vetr_check_dataformat_def nl False)
      moreover have "set (keys vetr_data) \<noteq> set vetr_2_0_0_keys"
        using False l0 by blast
      ultimately show ?thesis using n8 by blast
    qed
  qed
qed

theorem C7_thirteen_keys_one_foreign:
  "vetr_check_dataformat
     [(''meta'', ()), (''stats'', ()), (''apic'', ()), (''system'', ()), (''faults'', ()),
      (''tenant'', ()), (''health'', ()), (''fabric'', ()), (''access'', ()),
      (''admin'', ()), (''apps'', ()), (''scale'', ()), (''ssd'', ())] = Inl (Exit 1)"
proof -
  let ?d = "[(''meta'', ()), (''stats'', ()), (''apic'', ()), (''system'', ()), (''faults'', ()),
      (''tenant'', ()), (''health'', ()), (''fabric'', ()), (''access'', ()),
      (''admin'', ()), (''apps'', ()), (''scale'', ()), (''ssd'', ())]"
  have d: "distinct (keys ?d)"
    by (simp add: keys_def)
  have n0: "set (keys ?d) \<noteq> set vetr_2_0_0_keys"
  proof
    assume "set (keys ?d) = set vetr_2_0_0_keys"
    then have "''firmware'' \<in> set (keys ?d)"
      by (simp add: vetr_2_0_0_keys_def)
    then show False by (simp add: keys_def)
  qed
  have n8: "set (keys ?d) \<noteq> set vetr_2_0_8_keys"
  proof
    assume "set (keys ?d) = set vetr_2_0_8_keys"
    then have "''eol'' \<in> set (keys ?d)"
      by (simp add: vetr_2_0_8_keys_def)
    then show False by (simp add: keys_def)
  qed
  from C7_unknown_key_set_is_refused [OF d] n0 n8 show ?thesis
    by blast
qed

section \<open>The merge of the sources\<close>

lemma map_of_set_enabled_flags:
  "map_of (set_enabled_flags v n s c) =
     (map_of c)(''vetR_analysis_enabled'' \<mapsto> Flag v, ''nae_analysis_enabled'' \<mapsto> Flag n,
                ''ssd_analysis_enabled'' \<mapsto> Flag s)"
  by (simp add: set_enabled_flags_def AList.update_conv')

lemma distinct_set_enabled_flags:
  "distinct (keys c) \<Longrightarrow> distinct (keys (set_enabled_flags v n s c))"
  by (simp add: set_enabled_flags_def keys_def AList.distinct_update)

lemma map_of_dict_update_distinct:
  "distinct (keys other) \<Longrightarrow> map_of (dict_update d other) = map_of d ++ map_of other"
  by (simp add: map_of_dict_update map_of_rev_distinct keys_def)

text \<open>
  Claim C2, as the code has it. The merge never fails while a source is enabled: the
  result holds the entries of the enabled sources, and where a key occurs in more than one
  of them the value of the later source (order vetR, NAE/NDI, SSD) replaces the earlier
  one, as \<^verbatim>\<open>dict.update\<close> does; with no key in common this is the union of the
  sources. On top of it come the three \<^verbatim>\<open>*_analysis_enabled\<close> flags.
\<close>

theorem C2_merge_overwrites:
  assumes "enable_vetr \<or> enable_nae \<or> enable_ssd"
    and "distinct (keys V)" "distinct (keys N)" "distinct (keys S)"
  shows "\<exists>combined. combine_findings enable_vetr enable_nae enable_ssd V N S = Inr combined \<and>
           distinct (keys combined) \<and>
           map_of combined =
             (source_items enable_vetr V ++ source_items enable_nae N ++ source_items enable_ssd S)
               (''vetR_analysis_enabled'' \<mapsto> Flag enable_vetr,
                ''nae_analysis_enabled'' \<mapsto> Flag enable_nae,
                ''ssd_analysis_enabled'' \<mapsto> Flag enable_ssd)"
  using assms
  by (cases enable_vetr; cases enable_nae; cases enable_ssd)
     (simp_all add: combine_findings_def source_items_def map_of_set_enabled_flags
        distinct_set_enabled_flags distinct_dict_update map_of_dict_update_distinct)

text \<open>The same key in two sources: no error, the later value stands.\<close>

theorem C2_duplicate_key_is_overwritten:
  "combine_findings True True False
     [(''nae_x'', Rendered finding_a)] [(''nae_x'', Rendered finding_b)] [] =
   Inr [(''nae_x'', Rendered finding_b), (''vetR_analysis_enabled'', Flag True),
        (''nae_analysis_enabled'', Flag True), (''ssd_analysis_enabled'', Flag False)]"
  by (simp add: combine_findings_def set_enabled_flags_def dict_update_def)

theorem C2_merge_witness:
  "\<exists>combined. combine_findings True False True
       [(''vetR_a'', Rendered finding_a)] [] [(''ssd_faults'', Rendered finding_b)] = Inr combined \<and>
     map_of combined ''vetR_a'' = Some (Rendered finding_a) \<and>
     map_of combined ''ssd_faults'' = Some (Rendered finding_b) \<and>
     map_of combined ''nae_analysis_enabled'' = Some (Flag False)"
proof -
  have "True \<or> False \<or> True" by simp
  moreover have "distinct (keys [(''vetR_a'', Rendered finding_a)])"
    "distinct (keys ([] :: findings))" "distinct (keys [(''ssd_faults'', Rendered finding_b)])"
    by (simp_all add: keys_def)
  ultimately obtain combined where
    c: "combine_findings True False True
       [(''vetR_a'', Rendered finding_a)] [] [(''ssd_faults'', Rendered finding_b)] = Inr combined"
    and m: "map_of combined =
             (source_items True [(''vetR_a'', Rendered finding_a)] ++ source_items False []
                 ++ source_items True [(''ssd_faults'', Rendered finding_b)])
               (''vetR_analysis_enabled'' \<mapsto> Flag True,
                ''nae_analysis_enabled'' \<mapsto> Flag False,
                ''ssd_analysis_enabled'' \<mapsto> Flag True)"
    using C2_merge_overwrites [of True False True "[(''vetR_a'', Rendered finding_a)]" "[]"
        "[(''ssd_faults'', Rendered finding_b)]"]
    by blast
  show ?thesis
    by (rule exI [of _ combined]) (simp add: c m source_items_def)
qed

section \<open>The summary table\<close>

lemma bucket_items_append: "bucket_items (bucket_append b item) = insert item (bucket_items b)"
  by (auto simp: bucket_items_def bucket_append_def split: option.splits)

lemma extends_refl: "extends m m {} {} {} {}"
  by (simp add: extends_def)

lemma extends_trans:
  "extends m m1 A B C D \<Longrightarrow> extends m1 m2 A' B' C' D' \<Longrightarrow>
   extends m m2 (A \<union> A') (B \<union> B') (C \<union> C') (D \<union> D')"
  by (auto simp: extends_def)

lemma get_main_document_update:
  "get_main_document (AList.update ''main_document'' (MainDocument m) fs) = Inr m"
  by (simp add: get_main_document_def AList.update_conv')

lemma map_of_update_other:
  "k \<noteq> k' \<Longrightarrow> map_of (AList.update k' v fs) k = map_of fs k"
  by (simp add: AList.update_conv')

lemma add_to_bucket_Inr:
  assumes "get_main_document fs = Inr m"
  shows "add_to_bucket get put item fs =
           Inr (AList.update ''main_document''
                  (MainDocument (put (bucket_append (get m) item) m)) fs)"
  using assms by (simp add: add_to_bucket_def)

lemma prefix_excl_1: "startswith msg ''NDI support missing in template'' \<Longrightarrow>
    \<not> startswith msg ''Syntax error in Template''"
  by (cases msg) (auto simp: startswith_def)

lemma prefix_excl_2: "startswith msg ''NDI support missing in template'' \<Longrightarrow>
    \<not> startswith msg ''Undefined error while rendering template''"
  by (cases msg) (auto simp: startswith_def)

lemma prefix_excl_3: "startswith msg ''Syntax error in Template'' \<Longrightarrow>
    \<not> startswith msg ''Undefined error while rendering template''"
  by (cases msg) (auto simp: startswith_def)

lemma record_error_extends:
  assumes "get_main_document fs = Inr m"
  shows "\<exists>fs' m'. record_error item msg fs = Inr fs' \<and> get_main_document fs' = Inr m' \<and>
           (\<forall>k. k \<noteq> ''main_document'' \<longrightarrow> map_of fs' k = map_of fs k) \<and>
           extends m m'
             (if startswith msg ''Template missing'' then {item} else {})
             (if startswith msg ''NDI support missing in template'' then {item} else {})
             (if startswith msg ''Syntax error in Template'' then {item} else {})
             (if startswith msg ''Undefined error while rendering template'' then {item} else {})"
proof -
  define fs1 where "fs1 = (if startswith msg ''Template missing''
      then AList.update ''main_document''
             (MainDocument (m\<lparr>missing_templates := bucket_append (missing_templates m) item\<rparr>)) fs
      else fs)"
  define m1 where "m1 = (if startswith msg ''Template missing''
      then m\<lparr>missing_templates := bucket_append (missing_templates m) item\<rparr> else m)"
  have g1: "get_main_document fs1 = Inr m1"
    using assms by (simp add: fs1_def m1_def get_main_document_update)
  have k1: "\<forall>k. k \<noteq> ''main_document'' \<longrightarrow> map_of fs1 k = map_of fs k"
    by (simp add: fs1_def map_of_update_other)
  have e1: "extends m m1 (if startswith msg ''Template missing'' then {item} else {}) {} {} {}"
    by (simp add: m1_def extends_def bucket_items_append)
  have first: "(if startswith msg ''Template missing''
            then add_to_bucket missing_templates (\<lambda>b m. m\<lparr>missing_templates := b\<rparr>) item fs
            else Inr fs) = Inr fs1"
    using assms by (simp add: fs1_def add_to_bucket_Inr)
  consider (ndi) "startswith msg ''NDI support missing in template''"
    | (syn) "\<not> startswith msg ''NDI support missing in template''"
        "startswith msg ''Syntax error in Template''"
    | (und) "\<not> startswith msg ''NDI support missing in template''"
        "\<not> startswith msg ''Syntax error in Template''"
        "startswith msg ''Undefined error while rendering template''"
    | (none) "\<not> startswith msg ''NDI support missing in template''"
        "\<not> startswith msg ''Syntax error in Template''"
        "\<not> startswith msg ''Undefined error while rendering template''"
    by blast
  then show ?thesis
  proof cases
    case ndi
    let ?m' = "m1\<lparr>templates_missing_ndi_support :=
                   bucket_append (templates_missing_ndi_support m1) item\<rparr>"
    let ?fs' = "AList.update ''main_document'' (MainDocument ?m') fs1"
    have "record_error item msg fs = Inr ?fs'"
      using ndi g1 by (simp add: record_error_def first add_to_bucket_Inr)
    moreover have "get_main_document ?fs' = Inr ?m'"
      by (rule get_main_document_update)
    moreover have "\<forall>k. k \<noteq> ''main_document'' \<longrightarrow> map_of ?fs' k = map_of fs k"
      using k1 by (simp add: map_of_update_other)
    moreover have "extends m1 ?m' {} {item} {} {}"
      by (simp add: extends_def bucket_items_append)
    from extends_trans [OF e1 this]
    have "extends m ?m' (if startswith msg ''Template missing'' then {item} else {})
        {item} {} {}" by simp
    ultimately show ?thesis
      using ndi prefix_excl_1 [OF ndi] prefix_excl_2 [OF ndi] by (intro exI [of _ ?fs'] exI [of _ ?m']) simp
  next
    case syn
    let ?m' = "m1\<lparr>syntax_error_templates := bucket_append (syntax_error_templates m1) item\<rparr>"
    let ?fs' = "AList.update ''main_document'' (MainDocument ?m') fs1"
    have "record_error item msg fs = Inr ?fs'"
      using syn g1 by (simp add: record_error_def first add_to_bucket_Inr)
    moreover have "get_main_document ?fs' = Inr ?m'"
      by (rule get_main_document_update)
    moreover have "\<forall>k. k \<noteq> ''main_document'' \<longrightarrow> map_of ?fs' k = map_of fs k"
      using k1 by (simp add: map_of_update_other)
    moreover have "extends m1 ?m' {} {} {item} {}"
      by (simp add: extends_def bucket_items_append)
    from extends_trans [OF e1 this]
    have "extends m ?m' (if startswith msg ''Template missing'' then {item} else {})
        {} {item} {}" by simp
    ultimately show ?thesis
      using syn prefix_excl_3 [OF syn(2)] by (intro exI [of _ ?fs'] exI [of _ ?m']) simp
  next
    case und
    let ?m' = "m1\<lparr>undefined_error_templates :=
                   bucket_append (undefined_error_templates m1) item\<rparr>"
    let ?fs' = "AList.update ''main_document'' (MainDocument ?m') fs1"
    have "record_error item msg fs = Inr ?fs'"
      using und g1 by (simp add: record_error_def first add_to_bucket_Inr)
    moreover have "get_main_document ?fs' = Inr ?m'"
      by (rule get_main_document_update)
    moreover have "\<forall>k. k \<noteq> ''main_document'' \<longrightarrow> map_of ?fs' k = map_of fs k"
      using k1 by (simp add: map_of_update_other)
    moreover have "extends m1 ?m' {} {} {} {item}"
      by (simp add: extends_def bucket_items_append)
    from extends_trans [OF e1 this]
    have "extends m ?m' (if startswith msg ''Template missing'' then {item} else {})
        {} {} {item}" by simp
    ultimately show ?thesis
      using und by (intro exI [of _ ?fs'] exI [of _ ?m']) simp
  next
    case none
    have "record_error item msg fs = Inr fs1"
      using none by (simp add: record_error_def first)
    then show ?thesis
      using none g1 k1 e1 by (intro exI [of _ fs1] exI [of _ m1]) simp
  qed
qed

lemma failed_with_cong:
  assumes "\<forall>k. k \<noteq> ''main_document'' \<longrightarrow> map_of fs' k = map_of fs k"
  shows "failed_with fs' prefix i = failed_with fs prefix i"
proof (cases "i = ''main_document''")
  case True
  then show ?thesis by (simp add: failed_with_def ignore_findings_def)
next
  case False
  with assms have "map_of fs' i = map_of fs i" by blast
  then show ?thesis by (simp add: failed_with_def error_of_def)
qed

lemma failed_set_cong:
  assumes "\<forall>k. k \<noteq> ''main_document'' \<longrightarrow> map_of fs' k = map_of fs k"
  shows "failed_set fs' prefix items = failed_set fs prefix items"
  by (simp add: failed_set_def failed_with_cong [OF assms])

lemma row_candidates_cong:
  assumes "\<forall>k. k \<noteq> ''main_document'' \<longrightarrow> map_of fs' k = map_of fs k"
  shows "row_candidates fs' items = row_candidates fs items"
proof -
  have "error_of fs' i = error_of fs i" if "i \<notin> set ignore_findings" for i
  proof -
    from that have "i \<noteq> ''main_document''" by (auto simp: ignore_findings_def)
    with assms have "map_of fs' i = map_of fs i" by blast
    then show ?thesis by (simp add: error_of_def)
  qed
  then show ?thesis by (auto simp: row_candidates_def)
qed

lemma failed_set_Cons:
  "failed_set fs prefix (i # items) =
     (if failed_with fs prefix i then {i} else {}) \<union> failed_set fs prefix items"
  by (auto simp: failed_set_def)

lemma row_candidates_Cons:
  "row_candidates fs (i # items) =
     (if i \<notin> set ignore_findings \<and> error_of fs i = None then {i} else {})
       \<union> row_candidates fs items"
  by (auto simp: row_candidates_def)

lemma summary_row_of_name:
  "summary_row_of hl item f = Inr (Some row) \<Longrightarrow> name row = item"
  by (auto simp: summary_row_of_def split: field.splits sum.splits list.splits)

lemma summary_step_extends:
  assumes doc: "get_main_document fs = Inr m"
    and step: "summary_step hl item (fs, tbl) = Inr (fs', tbl')"
  shows "\<exists>m'. get_main_document fs' = Inr m' \<and>
           (\<forall>k. k \<noteq> ''main_document'' \<longrightarrow> map_of fs' k = map_of fs k) \<and>
           extends m m'
             (failed_set fs ''Template missing'' [item])
             (failed_set fs ''NDI support missing in template'' [item])
             (failed_set fs ''Syntax error in Template'' [item])
             (failed_set fs ''Undefined error while rendering template'' [item]) \<and>
           name ` set tbl' \<subseteq> name ` set tbl \<union> row_candidates fs [item]"
proof (cases "item \<in> set ignore_findings")
  case True
  then have "fs' = fs" "tbl' = tbl"
    using step by (simp_all add: summary_step_def)
  moreover have "failed_set fs p [item] = {}" for p
    using True by (auto simp: failed_set_def failed_with_def)
  moreover have "row_candidates fs [item] = {}"
    using True by (auto simp: row_candidates_def)
  ultimately show ?thesis
    using doc by (simp add: extends_refl)
next
  case ni: False
  show ?thesis
  proof (cases "error_of fs item")
    case None
    then have no_fail: "failed_set fs p [item] = {}" for p
      by (simp add: failed_set_def failed_with_def)
    have cand: "row_candidates fs [item] = {item}"
      using ni None by (auto simp: row_candidates_def)
    have "fs' = fs \<and> name ` set tbl' \<subseteq> insert item (name ` set tbl)"
      using step ni None
      by (auto simp: summary_step_def error_of_def
          split: option.splits fval.splits sum.splits dest: summary_row_of_name)
    then show ?thesis
      using doc by (auto simp: no_fail cand extends_refl)
  next
    case (Some msg)
    then obtain f where f: "map_of fs item = Some (Rendered f)" "error f = Some msg"
      by (auto simp: error_of_def split: option.splits fval.splits)
    from record_error_extends [OF doc, of item msg]
    obtain fs1 m1 where r: "record_error item msg fs = Inr fs1" "get_main_document fs1 = Inr m1"
      "\<forall>k. k \<noteq> ''main_document'' \<longrightarrow> map_of fs1 k = map_of fs k"
      "extends m m1
             (if startswith msg ''Template missing'' then {item} else {})
             (if startswith msg ''NDI support missing in template'' then {item} else {})
             (if startswith msg ''Syntax error in Template'' then {item} else {})
             (if startswith msg ''Undefined error while rendering template'' then {item} else {})"
      by blast
    have eq: "fs' = fs1" "tbl' = tbl"
      using step ni f r(1) by (simp_all add: summary_step_def)
    have fsx: "failed_set fs p [item] = (if startswith msg p then {item} else {})" for p
      using ni Some by (auto simp: failed_set_def failed_with_def)
    show ?thesis
      using r eq by (auto simp: fsx)
  qed
qed

lemma subset_chain: "A \<subseteq> B \<union> D \<Longrightarrow> B \<subseteq> C \<union> E \<Longrightarrow> A \<subseteq> C \<union> (E \<union> D)"
  by blast

lemma summary_loop_extends:
  assumes "get_main_document fs = Inr m"
    and "summary_loop hl items (fs, tbl) = Inr (fs', tbl')"
  shows "\<exists>m'. get_main_document fs' = Inr m' \<and>
           (\<forall>k. k \<noteq> ''main_document'' \<longrightarrow> map_of fs' k = map_of fs k) \<and>
           extends m m'
             (failed_set fs ''Template missing'' items)
             (failed_set fs ''NDI support missing in template'' items)
             (failed_set fs ''Syntax error in Template'' items)
             (failed_set fs ''Undefined error while rendering template'' items) \<and>
           name ` set tbl' \<subseteq> name ` set tbl \<union> row_candidates fs items"
  using assms
proof (induction items arbitrary: fs m tbl)
  case Nil
  then show ?case
    by (auto simp: failed_set_def row_candidates_def extends_refl)
next
  case (Cons item items)
  from Cons.prems(2) obtain fs1 tbl1 where
    s1: "summary_step hl item (fs, tbl) = Inr (fs1, tbl1)"
    and l1: "summary_loop hl items (fs1, tbl1) = Inr (fs', tbl')"
    by (auto split: sum.splits)
  from summary_step_extends [OF Cons.prems(1) s1]
  obtain m1 where a: "get_main_document fs1 = Inr m1"
    and k1: "\<forall>k. k \<noteq> ''main_document'' \<longrightarrow> map_of fs1 k = map_of fs k"
    and e1: "extends m m1
             (failed_set fs ''Template missing'' [item])
             (failed_set fs ''NDI support missing in template'' [item])
             (failed_set fs ''Syntax error in Template'' [item])
             (failed_set fs ''Undefined error while rendering template'' [item])"
    and t1: "name ` set tbl1 \<subseteq> name ` set tbl \<union> row_candidates fs [item]"
    by blast
  from Cons.IH [OF a l1]
  obtain m' where b: "get_main_document fs' = Inr m'"
    and k2: "\<forall>k. k \<noteq> ''main_document'' \<longrightarrow> map_of fs' k = map_of fs1 k"
    and e2: "extends m1 m'
             (failed_set fs1 ''Template missing'' items)
             (failed_set fs1 ''NDI support missing in template'' items)
             (failed_set fs1 ''Syntax error in Template'' items)
             (failed_set fs1 ''Undefined error while rendering template'' items)"
    and t2: "name ` set tbl' \<subseteq> name ` set tbl1 \<union> row_candidates fs1 items"
    by blast
  have u: "failed_set fs p [item] \<union> failed_set fs1 p items = failed_set fs p (item # items)" for p
    unfolding failed_set_cong [OF k1] by (auto simp: failed_set_def)
  have "extends m m'
             (failed_set fs ''Template missing'' (item # items))
             (failed_set fs ''NDI support missing in template'' (item # items))
             (failed_set fs ''Syntax error in Template'' (item # items))
             (failed_set fs ''Undefined error while rendering template'' (item # items))"
    using extends_trans [OF e1 e2] by (simp only: u)
  moreover have "name ` set tbl' \<subseteq> name ` set tbl \<union> row_candidates fs (item # items)"
  proof -
    have c: "row_candidates fs (item # items) =
        row_candidates fs [item] \<union> row_candidates fs items"
      by (auto simp: row_candidates_def)
    have t2': "name ` set tbl' \<subseteq> name ` set tbl1 \<union> row_candidates fs items"
      using t2 by (simp only: row_candidates_cong [OF k1])
    have "name ` set tbl' \<subseteq> name ` set tbl \<union> (row_candidates fs [item] \<union> row_candidates fs items)"
      by (rule subset_chain [OF t2' t1])
    then show ?thesis by (simp only: c)
  qed
  moreover have "\<forall>k. k \<noteq> ''main_document'' \<longrightarrow> map_of fs' k = map_of fs k"
    using k1 k2 by simp
  ultimately show ?case
    using b by blast
qed

text \<open>
  Claim C9, as the code has it. Whenever the builder returns, a finding that carries an
  error (and is not one of the bookkeeping keys) has no row in the summary table, and it
  is in a bucket of the resulting main document exactly when it was there before or its
  message starts with the prefix of that bucket: \<^verbatim>\<open>Template missing\<close>,
  \<^verbatim>\<open>NDI support missing in template\<close>, \<^verbatim>\<open>Syntax error in Template\<close>,
  \<^verbatim>\<open>Undefined error while rendering template\<close>. A finding with any other message
  is in none of the four.
\<close>

theorem C9_errors_bucketed_by_prefix:
  assumes "get_main_document findings = Inr m"
    and "create_findings_summary_table findall_headline findings = Inr findings'"
  shows "\<exists>m' table.
           get_main_document findings' = Inr m' \<and> summary_table m' = Some table \<and>
           (\<forall>item msg.
              item \<notin> set ignore_findings \<and> error_of findings item = Some msg \<longrightarrow>
                item \<notin> name ` set table \<and>
                (item \<in> bucket_items (missing_templates m') \<longleftrightarrow>
                   item \<in> bucket_items (missing_templates m) \<or>
                   startswith msg ''Template missing'') \<and>
                (item \<in> bucket_items (templates_missing_ndi_support m') \<longleftrightarrow>
                   item \<in> bucket_items (templates_missing_ndi_support m) \<or>
                   startswith msg ''NDI support missing in template'') \<and>
                (item \<in> bucket_items (syntax_error_templates m') \<longleftrightarrow>
                   item \<in> bucket_items (syntax_error_templates m) \<or>
                   startswith msg ''Syntax error in Template'') \<and>
                (item \<in> bucket_items (undefined_error_templates m') \<longleftrightarrow>
                   item \<in> bucket_items (undefined_error_templates m) \<or>
                   startswith msg ''Undefined error while rendering template''))"
proof -
  from assms(2) obtain fs1 tbl m1 where
    l: "summary_loop findall_headline (keys findings) (findings, []) = Inr (fs1, tbl)"
    and g: "get_main_document fs1 = Inr m1"
    and r: "findings' = AList.update ''main_document''
              (MainDocument (m1\<lparr>summary_table := Some tbl\<rparr>)) fs1"
    by (auto simp: create_findings_summary_table_def split: sum.splits prod.splits)
  from summary_loop_extends [OF assms(1) l] g
  have e: "extends m m1
             (failed_set findings ''Template missing'' (keys findings))
             (failed_set findings ''NDI support missing in template'' (keys findings))
             (failed_set findings ''Syntax error in Template'' (keys findings))
             (failed_set findings ''Undefined error while rendering template'' (keys findings))"
    and t: "name ` set tbl \<subseteq> row_candidates findings (keys findings)"
    by auto
  let ?m' = "m1\<lparr>summary_table := Some tbl\<rparr>"
  have g': "get_main_document findings' = Inr ?m'"
    by (simp add: r get_main_document_update)
  have inkeys: "item \<in> set (keys findings)" if "error_of findings item = Some msg" for item msg
  proof -
    from that have "map_of findings item \<noteq> None"
      by (auto simp: error_of_def split: option.splits)
    then show ?thesis
      by (simp add: keys_def map_of_eq_None_iff)
  qed
  have fs: "item \<in> failed_set findings p (keys findings) \<longleftrightarrow> startswith msg p"
    if "item \<notin> set ignore_findings" "error_of findings item = Some msg" for item msg p
    using that inkeys [OF that(2)] by (simp add: failed_set_def failed_with_def)
  have nt: "item \<notin> name ` set tbl" if "error_of findings item = Some msg" for item msg
    using t that by (auto simp: row_candidates_def)
  show ?thesis
    using g' e fs nt
    by (intro exI [of _ ?m'] exI [of _ tbl]) (auto simp: extends_def)
qed

lemmas summary_eval =
  create_findings_summary_table_def keys_def summary_step_def ignore_findings_def
  record_error_def startswith_def add_to_bucket_def get_main_document_def bucket_append_def
  render_action_def render_ok_def render_missing_def metadata_unreadable_def empty_document_def

text \<open>
  A finding whose metadata could not be extracted carries the error
  \<^verbatim>\<open>Template metadata extraction failed\<close>: it gets no row and no bucket.
\<close>

theorem C9_unbucketed_error:
  "create_findings_summary_table no_headline findings_without_metadata =
     Inr [(''vetR_x'', Rendered \<lparr>content = Val ''# Finding'', metadata = PyNone,
                                 error = Some ''Template metadata extraction failed''\<rparr>),
          (''main_document'', MainDocument
             \<lparr>missing_templates = None, templates_missing_ndi_support = None,
              syntax_error_templates = None, undefined_error_templates = None,
              summary_table = Some []\<rparr>)]"
  by (simp add: findings_without_metadata_def summary_eval)

theorem C9_two_errors:
  "\<exists>findings' m' table.
     create_findings_summary_table no_headline findings_two_errors = Inr findings' \<and>
     get_main_document findings' = Inr m' \<and> summary_table m' = Some table \<and>
     ''vetR_a'' \<notin> name ` set table \<and> ''vetR_b'' \<notin> name ` set table \<and>
     ''vetR_a'' \<in> bucket_items (missing_templates m') \<and>
     ''vetR_b'' \<notin> bucket_items (missing_templates m') \<and>
     ''vetR_b'' \<notin> bucket_items (templates_missing_ndi_support m') \<and>
     ''vetR_b'' \<notin> bucket_items (syntax_error_templates m') \<and>
     ''vetR_b'' \<notin> bucket_items (undefined_error_templates m')"
proof -
  have doc: "get_main_document findings_two_errors = Inr empty_document"
    by (simp add: findings_two_errors_def get_main_document_def)
  obtain findings' where
    run: "create_findings_summary_table no_headline findings_two_errors = Inr findings'"
    by (simp add: findings_two_errors_def summary_eval)
  have ea: "error_of findings_two_errors ''vetR_a'' = Some ''Template missing vetR_a.md''"
    by (simp add: error_of_def findings_two_errors_def render_action_def render_missing_def)
  have eb: "error_of findings_two_errors ''vetR_b'' = Some ''Template metadata extraction failed''"
    by (simp add: error_of_def findings_two_errors_def render_action_def render_ok_def
        metadata_unreadable_def)
  have ni: "''vetR_a'' \<notin> set ignore_findings" "''vetR_b'' \<notin> set ignore_findings"
    by (simp_all add: ignore_findings_def)
  from C9_errors_bucketed_by_prefix [OF doc run]
  obtain m' table where g: "get_main_document findings' = Inr m'"
    and t: "summary_table m' = Some table"
    and a: "\<forall>item msg.
              item \<notin> set ignore_findings \<and> error_of findings_two_errors item = Some msg \<longrightarrow>
                item \<notin> name ` set table \<and>
                (item \<in> bucket_items (missing_templates m') \<longleftrightarrow>
                   item \<in> bucket_items (missing_templates empty_document) \<or>
                   startswith msg ''Template missing'') \<and>
                (item \<in> bucket_items (templates_missing_ndi_support m') \<longleftrightarrow>
                   item \<in> bucket_items (templates_missing_ndi_support empty_document) \<or>
                   startswith msg ''NDI support missing in template'') \<and>
                (item \<in> bucket_items (syntax_error_templates m') \<longleftrightarrow>
                   item \<in> bucket_items (syntax_error_templates empty_document) \<or>
                   startswith msg ''Syntax error in Template'') \<and>
                (item \<in> bucket_items (undefined_error_templates m') \<longleftrightarrow>
                   item \<in> bucket_items (undefined_error_templates empty_document) \<or>
                   startswith msg ''Undefined error while rendering template'')"
    by blast
  from a [rule_format, of "''vetR_a''", OF conjI [OF ni(1) ea]]
  have ra: "''vetR_a'' \<notin> name ` set table" "''vetR_a'' \<in> bucket_items (missing_templates m')"
    by (simp_all add: startswith_def)
  from a [rule_format, of "''vetR_b''", OF conjI [OF ni(2) eb]]
  have rb: "''vetR_b'' \<notin> name ` set table"
    "''vetR_b'' \<notin> bucket_items (missing_templates m')"
    "''vetR_b'' \<notin> bucket_items (templates_missing_ndi_support m')"
    "''vetR_b'' \<notin> bucket_items (syntax_error_templates m')"
    "''vetR_b'' \<notin> bucket_items (undefined_error_templates m')"
    by (simp_all add: startswith_def empty_document_def bucket_items_def)
  show ?thesis
    using run g t ra rb by blast
qed

section \<open>The path extractor and the paginated retrieval\<close>

text \<open>
  Claim C6. The claim: the path of a match is the sequence of mapping keys and sequence
  indices from the root to the matched record. The code, for the record that is element
  0 of the list under the key \<^verbatim>\<open>fabric\<close>: the path yielded is the key followed by the
  matched record itself, where the claim has the index 0.
\<close>

theorem C6_path_through_a_sequence:
  "get_nested_dict_entries_containing_key
     (JDict [(''fabric'', JList [JDict [(''actionRecommended'', JBool True)]])])
     ''actionRecommended'' [] =
   ([([JStr ''fabric'', JDict [(''actionRecommended'', JBool True)]],
      JDict [(''actionRecommended'', JBool True)])], [])"
  by (simp add: keys_def pop_def is_container_def)

lemma later_pages_counter:
  "snd (foldl add_event_later_page (out, c) es) = c + int (length es)"
  by (induction es arbitrary: out c) (simp_all add: add_event_later_page_def Let_def)

text \<open>
  Claim C5. The claim: with 250 results declared and pages of 100, three pages are
  requested and no entry is missed. The code: the page counter is incremented inside the
  loop over the events of a page, so when the second page (offset 100) carries two
  entries or more the counter is past the page count after it, and offset 200 is never
  requested.
\<close>

theorem C5_third_page_never_requested:
  assumes "fetch 0 = Some \<lparr>totalResultsCount = Some 250, entries = page0\<rparr>"
    and "fetch 100 = Some \<lparr>totalResultsCount = Some 250, entries = page1\<rparr>"
    and "2 \<le> length page1"
  shows "\<exists>output. ndi_get_smart_events_summary (Suc fuel) fetch =
           Some ([0, 100], Inr (True, output))"
proof -
  obtain output1 current1 where
    f: "foldl add_event_later_page (foldl add_event_first_page [] page0, 1) page1 =
          (output1, current1)"
    by (cases "foldl add_event_later_page (foldl add_event_first_page [] page0, 1) page1")
  have "current1 = 1 + int (length page1)"
    using later_pages_counter [of "foldl add_event_first_page [] page0" 1 page1] f by simp
  then have c: "\<not> current1 < 3"
    using assms(3) by simp
  have "ndi_more_pages (Suc fuel) fetch 3 1 (foldl add_event_first_page [] page0) [0] =
      Some ([0, 100], Inr (True, output1))"
    using assms(2) f c by (simp add: max_response_count_def)
  then show ?thesis
    using assms(1) by (simp add: ndi_get_smart_events_summary_def max_response_count_def)
qed

theorem C5_two_requests_for_250_results:
  "\<exists>output. ndi_get_smart_events_summary 10 full_pages = Some ([0, 100], Inr (True, output))"
  using C5_third_page_never_requested [of full_pages "replicate 100 sample_event"
      "replicate 100 sample_event" 9]
  by (simp add: full_pages_def)

section \<open>The text report analyzer\<close>

lemma critical_reaches_major:
  "float_ge x ssd_thresholds_critical \<Longrightarrow> float_ge x ssd_thresholds_major"
  by (cases x) (simp_all add: float_ge_def ssd_thresholds_critical_def ssd_thresholds_major_def)

lemma reaches_critical_major:
  "reaches ssd_thresholds_critical n p \<Longrightarrow> reaches ssd_thresholds_major n p"
  by (simp add: reaches_def critical_reaches_major)

lemma run_checks_snoc:
  "run_checks a (evs @ [(n, e)]) = check_thresholds n (run_checks a evs) e"
  by (simp add: run_checks_def)

lemma run_checks_append:
  "run_checks a (xs @ ys) = run_checks (run_checks a xs) ys"
  by (simp add: run_checks_def)

lemma evaluate_usage_run_checks:
  "evaluate_usage u a = run_checks a (block_evaluations u)"
  by (simp add: evaluate_usage_def run_checks_def block_evaluations_def foldl_map)

lemma fold_evaluate_run_checks:
  "foldl (\<lambda>a u. evaluate_usage u a) a bs = run_checks a (concat (map block_evaluations bs))"
  by (induction bs arbitrary: a) (simp_all add: run_checks_append evaluate_usage_run_checks run_checks_def)

lemma find_snoc:
  "find P (xs @ [x]) = (case find P xs of Some y \<Rightarrow> Some y | None \<Rightarrow> if P x then Some x else None)"
  by (induction xs) simp_all

lemma find_None_reaches:
  "find (reaches t n) evs = None \<longleftrightarrow> \<not> (\<exists>p \<in> set evs. reaches t n p)"
  by (auto simp: find_None_iff)

text \<open>The state of the two lists and of the flag after any sequence of evaluations.\<close>

lemma run_checks_invariant:
  "set (critical (run_checks initial_action evs)) =
      {n. \<exists>p \<in> set evs. reaches ssd_thresholds_critical n p} \<and>
   set (major (run_checks initial_action evs)) = {n. enters_major evs n} \<and>
   distinct (critical (run_checks initial_action evs)) \<and>
   distinct (major (run_checks initial_action evs)) \<and>
   (actionRecommended (run_checks initial_action evs) \<longleftrightarrow>
      (\<exists>p \<in> set evs. float_ge (type_usage (snd p)) ssd_thresholds_major))"
proof (induction evs rule: rev_induct)
  case Nil
  show ?case
    by (simp add: run_checks_def initial_action_def enters_major_def)
next
  case (snoc p evs)
  obtain m e where p: "p = (m, e)" by (cases p)
  let ?a = "run_checks initial_action evs"
  from snoc have
    c: "set (critical ?a) = {n. \<exists>p \<in> set evs. reaches ssd_thresholds_critical n p}"
    and mj: "set (major ?a) = {n. enters_major evs n}"
    and dc: "distinct (critical ?a)" and dm: "distinct (major ?a)"
    and fl: "actionRecommended ?a \<longleftrightarrow>
      (\<exists>p \<in> set evs. float_ge (type_usage (snd p)) ssd_thresholds_major)"
    by blast+
  have step: "run_checks initial_action (evs @ [p]) = check_thresholds m ?a e"
    by (simp add: p run_checks_snoc)
  have em_other: "enters_major (evs @ [p]) n = enters_major evs n" if "n \<noteq> m" for n
    using that by (simp add: enters_major_def find_snoc reaches_def p split: option.splits)
  have em_seen: "enters_major (evs @ [p]) m = enters_major evs m"
    if "find (reaches ssd_thresholds_major m) evs \<noteq> None"
    using that by (auto simp: enters_major_def find_snoc split: option.splits)
  have em_new: "enters_major (evs @ [p]) m \<longleftrightarrow>
      float_ge (type_usage e) ssd_thresholds_major \<and>
      \<not> float_ge (type_usage e) ssd_thresholds_critical"
    if "find (reaches ssd_thresholds_major m) evs = None"
    using that by (simp add: enters_major_def find_snoc reaches_def p)
  have not_major: "m \<notin> set (major ?a)" and not_critical: "m \<notin> set (critical ?a)"
    if "find (reaches ssd_thresholds_major m) evs = None"
  proof -
    show "m \<notin> set (major ?a)"
      using that by (simp add: mj enters_major_def)
    from that have "\<not> (\<exists>p \<in> set evs. reaches ssd_thresholds_major m p)"
      by (simp add: find_None_reaches)
    then show "m \<notin> set (critical ?a)"
      using reaches_critical_major by (auto simp: c)
  qed
  have seen_listed: "m \<in> set (major ?a) \<or> m \<in> set (critical ?a)"
    if "find (reaches ssd_thresholds_major m) evs \<noteq> None"
  proof -
    from that obtain q where q: "find (reaches ssd_thresholds_major m) evs = Some q"
      by blast
    then have qin: "q \<in> set evs" and qr: "reaches ssd_thresholds_major m q"
      by (auto simp: find_Some_iff in_set_conv_nth)
    show ?thesis
    proof (cases "float_ge (type_usage (snd q)) ssd_thresholds_critical")
      case True
      then have "reaches ssd_thresholds_critical m q"
        using qr by (simp add: reaches_def)
      then show ?thesis using qin by (auto simp: c)
    next
      case False
      then show ?thesis by (simp add: mj enters_major_def q)
    qed
  qed
  have crit_set: "{n. \<exists>p \<in> set (evs @ [p]). reaches ssd_thresholds_critical n p} =
      set (critical ?a) \<union> (if float_ge (type_usage e) ssd_thresholds_critical then {m} else {})"
    by (auto simp: c p reaches_def)
  have flag: "(\<exists>q \<in> set (evs @ [p]). float_ge (type_usage (snd q)) ssd_thresholds_major) \<longleftrightarrow>
      actionRecommended ?a \<or> float_ge (type_usage e) ssd_thresholds_major"
    by (auto simp: fl p)
  have major_set: "{n. enters_major (evs @ [p]) n} =
      set (major ?a) \<union>
      (if float_ge (type_usage e) ssd_thresholds_major \<and>
          \<not> float_ge (type_usage e) ssd_thresholds_critical \<and>
          m \<notin> set (major ?a) \<and> m \<notin> set (critical ?a) then {m} else {})"
  proof (cases "find (reaches ssd_thresholds_major m) evs = None")
    case True
    have nm: "\<not> enters_major evs m"
      using not_major [OF True] by (simp add: mj)
    define b where "b = enters_major (evs @ [p]) m"
    have "enters_major (evs @ [p]) n \<longleftrightarrow> enters_major evs n \<or> (n = m \<and> b)" for n
      using em_other [of n] nm by (cases "n = m") (simp_all add: b_def)
    then have "{n. enters_major (evs @ [p]) n} = {n. enters_major evs n} \<union> (if b then {m} else {})"
      by auto
    then have "{n. enters_major (evs @ [p]) n} =
        {n. enters_major evs n} \<union> (if enters_major (evs @ [p]) m then {m} else {})"
      by (simp only: b_def)
    then show ?thesis
      using em_new [OF True] not_major [OF True] not_critical [OF True] by (simp add: mj)
  next
    case False
    have "{n. enters_major (evs @ [p]) n} = {n. enters_major evs n}"
      using em_other em_seen [OF False] by metis
    then show ?thesis
      using seen_listed [OF False] by (auto simp: mj)
  qed
  show ?case
    unfolding step crit_set flag major_set
    using dc dm critical_reaches_major [of "type_usage e"]
    by (auto simp: check_thresholds_def Let_def)
qed

lemma ssd_line_action:
  "ssd_line to_float (usage, a) l =
     (case ssd_line to_float (usage, initial_action) l of
        Inl e \<Rightarrow> Inl e
      | Inr (usage1, a0) \<Rightarrow>
          Inr (usage1, foldl (\<lambda>a u. evaluate_usage u a) a (flushed usage l)))"
  by (simp add: ssd_line_def flushed_def Let_def split: option.splits prod.splits)

lemma ssd_lines_blocks:
  "ssd_lines to_float (usage, a) ls = Inr (usage', a') \<Longrightarrow>
   (case usage' of None \<Rightarrow> a' | Some u \<Rightarrow> evaluate_usage u a') =
     foldl (\<lambda>a u. evaluate_usage u a) a (evaluated_blocks to_float usage ls)"
proof (induction ls arbitrary: usage a)
  case Nil
  then show ?case by (simp split: option.splits)
next
  case (Cons l ls)
  from Cons.prems obtain usage1 a1 where
    s: "ssd_line to_float (usage, a) l = Inr (usage1, a1)"
    and r: "ssd_lines to_float (usage1, a1) ls = Inr (usage', a')"
    by (auto split: sum.splits)
  from s obtain a0 where
    s0: "ssd_line to_float (usage, initial_action) l = Inr (usage1, a0)"
    and a1: "a1 = foldl (\<lambda>a u. evaluate_usage u a) a (flushed usage l)"
    by (subst (asm) ssd_line_action) (auto split: sum.splits)
  from Cons.IH [OF r] show ?case
    by (simp add: s0 a1)
qed

lemma ssd_analyze_output_run_checks:
  assumes "ssd_analyze_output to_float ssd_data = Inr out"
  shows "out =
     (if actionRecommended (run_checks initial_action (evaluations to_float ssd_data))
      then [(''ssd_faults'', run_checks initial_action (evaluations to_float ssd_data))]
      else [])"
proof -
  from assms obtain usage a where
    l: "ssd_lines to_float (None, initial_action) ssd_data = Inr (usage, a)"
    and o: "out =
      (if actionRecommended (case usage of None \<Rightarrow> a | Some u \<Rightarrow> evaluate_usage u a)
       then [(test_name, (case usage of None \<Rightarrow> a | Some u \<Rightarrow> evaluate_usage u a))]
       else [])"
    by (auto simp: ssd_analyze_output_def Let_def split: sum.splits)
  have "(case usage of None \<Rightarrow> a | Some u \<Rightarrow> evaluate_usage u a) =
      run_checks initial_action (evaluations to_float ssd_data)"
    using ssd_lines_blocks [OF l] by (simp add: fold_evaluate_run_checks evaluations_def)
  then show ?thesis
    by (simp add: o test_name_def)
qed

lemma ssd_line_error: "ssd_line to_float st l = Inl e \<Longrightarrow> e = ValueError"
  by (auto simp: ssd_line_def Let_def split: option.splits prod.splits if_splits)

lemma ssd_lines_error: "ssd_lines to_float st ls = Inl e \<Longrightarrow> e = ValueError"
  by (induction ls arbitrary: st) (auto split: sum.splits dest: ssd_line_error)

lemma ssd_analyze_output_error:
  "ssd_analyze_output to_float ssd_data = Inl e \<Longrightarrow> e = ValueError"
  by (auto simp: ssd_analyze_output_def Let_def split: sum.splits prod.splits dest: ssd_lines_error)

text \<open>
  Claim C4, as the code has it. The analyzer returns the empty mapping or one finding
  under the key \<^verbatim>\<open>ssd_faults\<close>, whatever the number of usage types over a threshold;
  the usage type is not part of the result. The result is empty exactly when no
  evaluated usage entry reaches the major threshold. Otherwise its critical list holds
  the nodes with an entry at or over the critical threshold, and its major list the nodes
  whose first entry at or over the major threshold is below the critical one.
\<close>

theorem C4_one_finding_with_global_lists:
  assumes "ssd_analyze_output to_float ssd_data = Inr out"
  shows "(out = [] \<longleftrightarrow>
            (\<forall>p \<in> set (evaluations to_float ssd_data).
               \<not> float_ge (type_usage (snd p)) ssd_thresholds_major)) \<and>
         (out \<noteq> [] \<longrightarrow>
            (\<exists>a. out = [(''ssd_faults'', a)] \<and>
               set (critical a) =
                 {n. \<exists>p \<in> set (evaluations to_float ssd_data). reaches ssd_thresholds_critical n p} \<and>
               set (major a) = {n. enters_major (evaluations to_float ssd_data) n}))"
  using ssd_analyze_output_run_checks [OF assms]
    run_checks_invariant [of "evaluations to_float ssd_data"]
  by (simp split: if_splits)

text \<open>
  Claim C8, as the code has it. A node with a usage entry at or over the critical
  threshold is in the critical list of the finding, and the evaluation of that entry
  leaves the major list as it is. The lists are kept per report and not per usage type,
  so the node is in the major list as well exactly when the first of its entries to
  reach the major threshold stayed below the critical one.
\<close>

theorem C8_critical_metric_of_a_node:
  assumes "ssd_analyze_output to_float ssd_data = Inr out"
    and "(n, e) \<in> set (evaluations to_float ssd_data)"
    and "float_ge (type_usage e) ssd_thresholds_critical"
  shows "(\<exists>a. out = [(''ssd_faults'', a)] \<and> n \<in> set (critical a) \<and>
            (n \<in> set (major a) \<longleftrightarrow> enters_major (evaluations to_float ssd_data) n)) \<and>
         major (check_thresholds n a0 e) = major a0"
proof -
  let ?evs = "evaluations to_float ssd_data"
  have r: "reaches ssd_thresholds_critical n (n, e)"
    using assms(3) by (simp add: reaches_def)
  have m: "float_ge (type_usage (snd (n, e))) ssd_thresholds_major"
    using assms(3) by (simp add: critical_reaches_major)
  have flag: "actionRecommended (run_checks initial_action ?evs)"
    using run_checks_invariant [of ?evs] assms(2) m by blast
  have crit: "n \<in> set (critical (run_checks initial_action ?evs))"
    using run_checks_invariant [of ?evs] assms(2) r by blast
  have maj: "n \<in> set (major (run_checks initial_action ?evs)) \<longleftrightarrow> enters_major ?evs n"
    using run_checks_invariant [of ?evs] by simp
  have out: "out = [(''ssd_faults'', run_checks initial_action ?evs)]"
    using ssd_analyze_output_run_checks [OF assms(1)] flag by simp
  have step: "major (check_thresholds n a0 e) = major a0"
    using assms(3) by (simp add: check_thresholds_def Let_def critical_reaches_major)
  show ?thesis
    using out crit maj step by simp
qed

text \<open>
  Claim C10, as the code has it. The result is empty or has the single key
  \<^verbatim>\<open>ssd_faults\<close>; its two lists are free of duplicates; a node that is in the critical
  list when an entry is evaluated is not added to the major list by it. The two lists
  share exactly the nodes that entered the major list before an entry of theirs reached
  the critical threshold.
\<close>

theorem C10_single_key_and_duplicate_free_lists:
  assumes "ssd_analyze_output to_float ssd_data = Inr out"
  shows "(out = [] \<or>
          (\<exists>a. out = [(''ssd_faults'', a)] \<and> distinct (critical a) \<and> distinct (major a) \<and>
             set (critical a) \<inter> set (major a) =
               {n. enters_major (evaluations to_float ssd_data) n \<and>
                   (\<exists>p \<in> set (evaluations to_float ssd_data).
                      reaches ssd_thresholds_critical n p)})) \<and>
         (\<forall>a0 n e. n \<in> set (critical a0) \<longrightarrow> major (check_thresholds n a0 e) = major a0)"
proof -
  let ?evs = "evaluations to_float ssd_data"
  have step: "major (check_thresholds n a0 e) = major a0" if "n \<in> set (critical a0)" for a0 n e
    using that by (simp add: check_thresholds_def Let_def)
  have inter: "set (critical (run_checks initial_action ?evs)) \<inter>
      set (major (run_checks initial_action ?evs)) =
      {n. enters_major ?evs n \<and> (\<exists>p \<in> set ?evs. reaches ssd_thresholds_critical n p)}"
    using run_checks_invariant [of ?evs] by auto
  show ?thesis
    using ssd_analyze_output_run_checks [OF assms] run_checks_invariant [of ?evs] inter step
    by (simp split: if_splits)
qed

text \<open>
  The report of the specification gives the key \<^verbatim>\<open>ssd_faults\<close> and no key
  \<^verbatim>\<open>type_1\<close>; two usage types over a threshold give one finding with both nodes.
\<close>

theorem C4_one_key_for_all_types:
  "ssd_analyze_output float_of_digits report_example =
     Inr [(''ssd_faults'',
           \<lparr>actionRecommended = True, critical = [''node-101''], major = []\<rparr>)] \<and>
   ssd_analyze_output float_of_digits report_two_types =
     Inr [(''ssd_faults'',
           \<lparr>actionRecommended = True, critical = [''node-101''], major = [''node-102'']\<rparr>)]"
  by code_simp

theorem C4_two_types_witness:
  "\<exists>a. ssd_analyze_output float_of_digits report_two_types = Inr [(''ssd_faults'', a)] \<and>
       set (critical a) =
         {n. \<exists>p \<in> set (evaluations float_of_digits report_two_types).
               reaches ssd_thresholds_critical n p} \<and>
       set (major a) = {n. enters_major (evaluations float_of_digits report_two_types) n}"
proof -
  have run: "ssd_analyze_output float_of_digits report_two_types =
     Inr [(''ssd_faults'',
           \<lparr>actionRecommended = True, critical = [''node-101''], major = [''node-102'']\<rparr>)]"
    by code_simp
  from C4_one_finding_with_global_lists [OF run] show ?thesis
    by (simp add: run)
qed

text \<open>
  Usage type 2 of node 101 is over both thresholds, and the node is in both lists:
  usage type 1, evaluated before, put it into the major list.
\<close>

theorem C8_node_in_both_lists:
  "ssd_analyze_output float_of_digits report_major_then_critical =
     Inr [(''ssd_faults'',
           \<lparr>actionRecommended = True, critical = [''node-101''], major = [''node-101'']\<rparr>)]"
  by code_simp

theorem C8_critical_metric_witness:
  "\<exists>a. ssd_analyze_output float_of_digits report_major_then_critical =
         Inr [(''ssd_faults'', a)] \<and>
       ''node-101'' \<in> set (critical a) \<and>
       (''node-101'' \<in> set (major a) \<longleftrightarrow>
          enters_major (evaluations float_of_digits report_major_then_critical) ''node-101'') \<and>
       major (check_thresholds ''node-101'' initial_action
                \<lparr>type_description = ''CPU'', type_id = ''2'', type_usage = Finite 95\<rparr>) =
         major initial_action"
proof -
  have run: "ssd_analyze_output float_of_digits report_major_then_critical =
     Inr [(''ssd_faults'',
           \<lparr>actionRecommended = True, critical = [''node-101''], major = [''node-101'']\<rparr>)]"
    by code_simp
  have ev: "(''node-101'', \<lparr>type_description = ''CPU'', type_id = ''2'', type_usage = Finite 95\<rparr>)
      \<in> set (evaluations float_of_digits report_major_then_critical)"
    by code_simp
  have ge: "float_ge (type_usage \<lparr>type_description = ''CPU'', type_id = ''2'',
      type_usage = Finite 95\<rparr>) ssd_thresholds_critical"
    by (simp add: float_ge_def ssd_thresholds_critical_def)
  from C8_critical_metric_of_a_node [OF run ev ge, of initial_action] show ?thesis
    by (simp add: run)
qed

text \<open>A node listed twice, first over the major threshold only: the lists overlap.\<close>

theorem C10_lists_overlap:
  "ssd_analyze_output float_of_digits report_node_twice =
     Inr [(''ssd_faults'',
           \<lparr>actionRecommended = True, critical = [''node-101''], major = [''node-101'']\<rparr>)]"
  by code_simp

theorem C10_example_witness:
  "\<exists>a. ssd_analyze_output float_of_digits report_example = Inr [(''ssd_faults'', a)] \<and>
       distinct (critical a) \<and> distinct (major a) \<and>
       set (critical a) \<inter> set (major a) =
         {n. enters_major (evaluations float_of_digits report_example) n \<and>
             (\<exists>p \<in> set (evaluations float_of_digits report_example).
                reaches ssd_thresholds_critical n p)}"
proof -
  have run: "ssd_analyze_output float_of_digits report_example =
     Inr [(''ssd_faults'',
           \<lparr>actionRecommended = True, critical = [''node-101''], major = []\<rparr>)]"
    by code_simp
  from C10_single_key_and_duplicate_free_lists [OF run] show ?thesis
    by (simp add: run)
qed

end
